theory Spec2Isabelle
  imports Complex_Main "HOL-Library.Log_Nat"
begin

section \<open>JavaScript numbers\<close>

text \<open>
  The TypeScript type \<open>number\<close>. The special values \<open>NaN\<close>, \<open>-Infinity\<close> and
  \<open>Infinity\<close> are kept, because the code reaches them (\<open>Math.max()\<close> of no argument
  is \<open>-Infinity\<close>, \<open>Math.min()\<close> is \<open>Infinity\<close>). A finite value is a rational,
  and there is one zero (the sign of zero is not modelled).

  The four operations of this section are exact on finite values. They are used for the
  bracketing years and the alpha of a pixel. The statistics and the color scales, whose
  results depend on the rounding and the overflow of doubles, use the operations of the
  next section, which round every finite result to the nearest double.
\<close>

datatype number = NaN | NInf | Fin rat | PInf

fun neg :: "number \<Rightarrow> number" where
  "neg NaN = NaN"
| "neg NInf = PInf"
| "neg (Fin a) = Fin (- a)"
| "neg PInf = NInf"

text \<open>\<open>a + b\<close>\<close>

fun add :: "number \<Rightarrow> number \<Rightarrow> number" where
  "add NaN b = NaN"
| "add a NaN = NaN"
| "add (Fin a) (Fin b) = Fin (a + b)"
| "add (Fin a) b = b"
| "add a (Fin b) = a"
| "add PInf PInf = PInf"
| "add NInf NInf = NInf"
| "add PInf NInf = NaN"
| "add NInf PInf = NaN"

text \<open>\<open>a - b\<close>\<close>

definition sub :: "number \<Rightarrow> number \<Rightarrow> number" where
  "sub a b = add a (neg b)"

text \<open>\<open>a * b\<close>\<close>

fun mul :: "number \<Rightarrow> number \<Rightarrow> number" where
  "mul NaN b = NaN"
| "mul a NaN = NaN"
| "mul (Fin a) (Fin b) = Fin (a * b)"
| "mul (Fin a) PInf = (if a = 0 then NaN else if 0 < a then PInf else NInf)"
| "mul (Fin a) NInf = (if a = 0 then NaN else if 0 < a then NInf else PInf)"
| "mul PInf (Fin b) = (if b = 0 then NaN else if 0 < b then PInf else NInf)"
| "mul NInf (Fin b) = (if b = 0 then NaN else if 0 < b then NInf else PInf)"
| "mul PInf PInf = PInf"
| "mul NInf NInf = PInf"
| "mul PInf NInf = NInf"
| "mul NInf PInf = NInf"

text \<open>\<open>a / b\<close>; the only zero is positive.\<close>

fun divide :: "number \<Rightarrow> number \<Rightarrow> number" where
  "divide NaN b = NaN"
| "divide a NaN = NaN"
| "divide (Fin a) (Fin b) =
     (if b = 0 then (if a = 0 then NaN else if 0 < a then PInf else NInf)
      else Fin (a / b))"
| "divide (Fin a) b = Fin 0"
| "divide PInf (Fin b) = (if 0 \<le> b then PInf else NInf)"
| "divide NInf (Fin b) = (if 0 \<le> b then NInf else PInf)"
| "divide a b = NaN"

text \<open>\<open>a < b\<close>: false as soon as one side is \<open>NaN\<close>.\<close>

fun lt :: "number \<Rightarrow> number \<Rightarrow> bool" where
  "lt NaN b = False"
| "lt a NaN = False"
| "lt (Fin a) (Fin b) = (a < b)"
| "lt NInf NInf = False"
| "lt NInf b = True"
| "lt a NInf = False"
| "lt PInf b = False"
| "lt a PInf = True"

text \<open>\<open>a > b\<close>\<close>

definition gt :: "number \<Rightarrow> number \<Rightarrow> bool" where
  "gt a b = lt b a"

text \<open>\<open>a === b\<close>: \<open>NaN\<close> is not equal to itself.\<close>

definition strictEq :: "number \<Rightarrow> number \<Rightarrow> bool" where
  "strictEq a b = (a \<noteq> NaN \<and> a = b)"

text \<open>\<open>a <= b\<close> and \<open>a >= b\<close>\<close>

definition le :: "number \<Rightarrow> number \<Rightarrow> bool" where
  "le a b = (lt a b \<or> strictEq a b)"

definition ge :: "number \<Rightarrow> number \<Rightarrow> bool" where
  "ge a b = le b a"

text \<open>\<open>a || b\<close> on numbers: \<open>0\<close> and \<open>NaN\<close> are the falsy numbers.\<close>

definition orElse :: "number \<Rightarrow> number \<Rightarrow> number" where
  "orElse a b = (if a = NaN \<or> a = Fin 0 then b else a)"

text \<open>\<open>Math.max(a, b)\<close> and \<open>Math.min(a, b)\<close>: \<open>NaN\<close> if one argument is.\<close>

definition Math_max2 :: "number \<Rightarrow> number \<Rightarrow> number" where
  "Math_max2 a b = (if a = NaN \<or> b = NaN then NaN else if lt a b then b else a)"

definition Math_min2 :: "number \<Rightarrow> number \<Rightarrow> number" where
  "Math_min2 a b = (if a = NaN \<or> b = NaN then NaN else if lt b a then b else a)"

text \<open>\<open>Math.max(...xs)\<close> and \<open>Math.min(...xs)\<close>, which start from \<open>-Infinity\<close> and \<open>Infinity\<close>.\<close>

definition Math_max :: "number list \<Rightarrow> number" where
  "Math_max xs = foldl Math_max2 NInf xs"

definition Math_min :: "number list \<Rightarrow> number" where
  "Math_min xs = foldl Math_min2 PInf xs"

text \<open>\<open>Math.floor(a)\<close> and \<open>Math.round(a)\<close> (halves round up).\<close>

fun Math_floor :: "number \<Rightarrow> number" where
  "Math_floor (Fin a) = Fin (of_int \<lfloor>a\<rfloor>)"
| "Math_floor a = a"

fun Math_round :: "number \<Rightarrow> number" where
  "Math_round (Fin a) = Fin (of_int \<lfloor>a + 1 / 2\<rfloor>)"
| "Math_round a = a"

text \<open>\<open>xs.length\<close> as a number.\<close>

definition lengthOf :: "'a list \<Rightarrow> number" where
  "lengthOf xs = Fin (of_nat (length xs))"

text \<open>
  \<open>xs[i]\<close> for a number \<open>i\<close>: \<open>undefined\<close> (here \<open>None\<close>) unless \<open>i\<close> is an integer
  with \<open>0 <= i < xs.length\<close>.
\<close>

fun arrayGet :: "'a list \<Rightarrow> number \<Rightarrow> 'a option" where
  "arrayGet xs (Fin i) =
     (if of_int \<lfloor>i\<rfloor> = i \<and> 0 \<le> i \<and> nat \<lfloor>i\<rfloor> < length xs then Some (xs ! nat \<lfloor>i\<rfloor>) else None)"
| "arrayGet xs i = None"

section \<open>Double arithmetic\<close>

text \<open>
  Rounding of a rational to the nearest double (IEEE 754 binary64, ties to even).
  \<open>rne\<close> rounds to the nearest integer, ties to the even one; \<open>exponent r\<close> is the
  \<open>e\<close> with \<open>2^e <= r < 2^(e+1)\<close> for \<open>r > 0\<close>; \<open>ulp r\<close> is the distance between
  the doubles around \<open>r\<close>, \<open>2^(e-52)\<close>, and \<open>2^(-1074)\<close> below the normal range.
  A result of magnitude \<open>2^1024\<close> or more after rounding is an overflow.
\<close>

definition rne :: "rat \<Rightarrow> int" where
  "rne q = (let f = \<lfloor>q\<rfloor>; d = q - of_int f
            in if d < 1 / 2 then f else if 1 / 2 < d then f + 1
               else if even f then f else f + 1)"

definition exponent :: "rat \<Rightarrow> int" where
  "exponent r = (let (p, q) = quotient_of r; k = bitlen p - bitlen q
                 in if 2 powi k \<le> r then k else k - 1)"

definition ulp :: "rat \<Rightarrow> rat" where
  "ulp r = 2 powi (max (exponent r) (- 1022) - 52)"

definition nearest :: "rat \<Rightarrow> rat" where
  "nearest r = (if r = 0 then 0 else sgn r * (of_int (rne (\<bar>r\<bar> / ulp \<bar>r\<bar>)) * ulp \<bar>r\<bar>))"

definition roundDouble :: "rat \<Rightarrow> number" where
  "roundDouble r =
     (let x = nearest r
      in if 2 ^ 1024 \<le> x then PInf else if x \<le> - (2 ^ 1024) then NInf else Fin x)"

fun rounded :: "number \<Rightarrow> number" where
  "rounded (Fin r) = roundDouble r"
| "rounded a = a"

text \<open>\<open>a + b\<close>, \<open>a - b\<close>, \<open>a * b\<close> and \<open>a / b\<close> on doubles.\<close>

definition addD :: "number \<Rightarrow> number \<Rightarrow> number" where
  "addD a b = rounded (add a b)"

definition subD :: "number \<Rightarrow> number \<Rightarrow> number" where
  "subD a b = rounded (sub a b)"

definition mulD :: "number \<Rightarrow> number \<Rightarrow> number" where
  "mulD a b = rounded (mul a b)"

definition divideD :: "number \<Rightarrow> number \<Rightarrow> number" where
  "divideD a b = rounded (divide a b)"

text \<open>The double a decimal literal of the source denotes, as \<open>0.1\<close>.\<close>

definition lit :: "rat \<Rightarrow> number" where
  "lit r = roundDouble r"

text \<open>\<open>xs.reduce((acc, val) => acc + val, 0)\<close>\<close>

definition sumOfD :: "number list \<Rightarrow> number" where
  "sumOfD xs = foldl addD (Fin 0) xs"

section \<open>\<open>Math.random\<close>\<close>

text \<open>
  The source of random numbers is a sequence of draws \<open>rs\<close> and the number \<open>n\<close> of
  draws made so far: \<open>Math.random()\<close> returns \<open>rs n\<close> and advances \<open>n\<close>. A function that
  draws takes both and returns the new count. The draws of the real source lie in
  \<open>[0, 1)\<close>.
\<close>

type_synonym draws = "nat \<Rightarrow> rat"

definition unitDraws :: "draws \<Rightarrow> bool" where
  "unitDraws rs = (\<forall>k. 0 \<le> rs k \<and> rs k < 1)"

section \<open>Temporal interpolation (\<open>geospatialUtils.ts\<close>)\<close>

text \<open>
  The callback of \<open>startData.map\<close> in \<open>interpolateData\<close>, run over the pairs
  \<open>(startValue, endData[index])\<close>; it is only reached when both arrays have the same
  length, so every \<open>endData[index]\<close> is defined. A draw is made only at a cell whose
  two values differ.
\<close>

fun blendCells :: "draws \<Rightarrow> nat \<Rightarrow> (number \<times> number) list \<Rightarrow> number \<Rightarrow> number list \<times> nat" where
  "blendCells rs n [] progress = ([], n)"
| "blendCells rs n ((startValue, endValue) # rest) progress =
     (if strictEq startValue endValue
      then (let (out, n') = blendCells rs n rest progress in (startValue # out, n'))
      else (let v = (if lt (Fin (rs n)) progress then endValue else startValue);
                (out, n') = blendCells rs (Suc n) rest progress
            in (v # out, n')))"

definition interpolateData ::
  "draws \<Rightarrow> nat \<Rightarrow> number list \<Rightarrow> number list \<Rightarrow> number \<Rightarrow> number list \<times> nat" where
  "interpolateData rs n startData endData progress =
     (if length startData \<noteq> length endData \<or> length startData = 0
      then (endData, n)
      else blendCells rs n (zip startData endData) progress)"

section \<open>Color tables (\<open>geospatialUtils.ts\<close>)\<close>

text \<open>
  An object with numeric keys is an association list on the number each property name
  is the canonical string of (\<open>landCoverColors[value]\<close> converts \<open>value\<close> to that
  string, and different numbers have different strings).
\<close>

definition landCoverColors :: "(number \<times> string) list" where
  "landCoverColors =
     [(Fin 7, ''#1a9850''), (Fin 8, ''#91cf60''), (Fin 9, ''#d9ef8b''), (Fin 10, ''#fee08b''),
      (Fin 11, ''#66c2a5''), (Fin 12, ''#fc8d59''), (Fin 13, ''#d73027''), (Fin 14, ''#fdae61''),
      (Fin 15, ''#f7f7f7''), (Fin 16, ''#bababa''), (Fin 0, ''#4d4d4d'')]"

definition landCoverClasses :: "(number \<times> string) list" where
  "landCoverClasses =
     [(Fin 7, ''Forests''), (Fin 8, ''Shrublands''), (Fin 9, ''Savannas''), (Fin 10, ''Grasslands''),
      (Fin 11, ''Wetlands''), (Fin 12, ''Croplands''), (Fin 13, ''Urban''),
      (Fin 14, ''Cropland/Natural Mosaic''), (Fin 15, ''Snow and Ice''), (Fin 16, ''Barren''),
      (Fin 0, ''No Data'')]"

definition precipitationColorScale :: "string list" where
  "precipitationColorScale =
     [''#f7fbff'', ''#deebf7'', ''#c6dbef'', ''#9ecae1'', ''#6baed6'', ''#4292c6'', ''#2171b5'',
      ''#08519c'', ''#08306b'']"

definition vegetationProductivityScale :: "string list" where
  "vegetationProductivityScale =
     [''#f7fcf5'', ''#e5f5e0'', ''#c7e9c0'', ''#a1d99b'', ''#74c476'', ''#41ab5d'', ''#238b45'',
      ''#006d2c'', ''#00441b'']"

definition populationDensityScale :: "string list" where
  "populationDensityScale =
     [''#ffffcc'', ''#ffeda0'', ''#fed976'', ''#feb24c'', ''#fd8d3c'', ''#fc4e2a'', ''#e31a1c'',
      ''#bd0026'', ''#800026'']"

section \<open>Color mapping\<close>

text \<open>
  The index computed, in the same words, by \<open>getPrecipitationColor\<close>,
  \<open>getVegetationColor\<close> and \<open>getPopulationDensityColor\<close>:
  \<^verbatim>\<open>normalized = Math.max(0, Math.min(1, (value - min) / (max - min || 1)))\<close>,
  \<^verbatim>\<open>index = Math.floor(normalized * (scale.length - 1))\<close>.
\<close>

definition scaleIndex :: "number \<Rightarrow> number \<Rightarrow> number \<Rightarrow> string list \<Rightarrow> number" where
  "scaleIndex value mn mx scale =
     (let normalized =
            Math_max2 (Fin 0)
              (Math_min2 (Fin 1) (divideD (subD value mn) (orElse (subD mx mn) (Fin 1))))
      in Math_floor (mulD normalized (subD (lengthOf scale) (Fin 1))))"

text \<open>The three functions return a string, or \<open>undefined\<close> (\<open>None\<close>) when the index names no element.\<close>

definition getPrecipitationColor :: "number \<Rightarrow> number \<Rightarrow> number \<Rightarrow> string option" where
  "getPrecipitationColor value mn mx =
     arrayGet precipitationColorScale (scaleIndex value mn mx precipitationColorScale)"

definition getVegetationColor :: "number \<Rightarrow> number \<Rightarrow> number \<Rightarrow> string option" where
  "getVegetationColor value mn mx =
     (if strictEq value (Fin 65533) \<or> le value (Fin 0) then Some ''#ffffff00''
      else arrayGet vegetationProductivityScale (scaleIndex value mn mx vegetationProductivityScale))"

definition getPopulationDensityColor :: "number \<Rightarrow> number \<Rightarrow> number \<Rightarrow> string option" where
  "getPopulationDensityColor value mn mx =
     (if lt value (Fin 0) then Some ''#ffffff00''
      else arrayGet populationDensityScale (scaleIndex value mn mx populationDensityScale))"

section \<open>Rendering (\<open>renderTIFFToCanvas\<close>)\<close>

text \<open>\<open>a || b\<close> on a looked-up string: \<open>undefined\<close> and the empty string are falsy.\<close>

definition orElseString :: "string option \<Rightarrow> string option \<Rightarrow> string option" where
  "orElseString a b = (case a of None \<Rightarrow> b | Some s \<Rightarrow> (if s = [] then b else Some s))"

text \<open>The choice of \<open>color\<close> in the body of the loop over the cells.\<close>

definition cellColor :: "string \<Rightarrow> number \<Rightarrow> number \<Rightarrow> number \<Rightarrow> string option" where
  "cellColor dataType value mn mx =
     (if dataType = ''precipitation'' then getPrecipitationColor value mn mx
      else if dataType = ''vegetation''
      then (if strictEq value (Fin 65533) then Some ''#ffffff00''
            else getVegetationColor value mn mx)
      else if dataType = ''population'' then getPopulationDensityColor value mn mx
      else orElseString (map_of landCoverColors value) (map_of landCoverColors (Fin 0)))"

text \<open>
  \<open>parseInt(s, 16)\<close> on the slices of a color string: the value of the longest prefix of
  hexadecimal digits, \<open>NaN\<close> when there is none. (White space, a sign and a \<open>0x\<close> prefix,
  which \<open>parseInt\<close> also accepts, occur in no color of this file and are not modelled.)
\<close>

definition hexValue :: "char \<Rightarrow> nat option" where
  "hexValue c =
     (let k = of_char c :: nat in
      if 48 \<le> k \<and> k \<le> 57 then Some (k - 48)
      else if 97 \<le> k \<and> k \<le> 102 then Some (k - 87)
      else if 65 \<le> k \<and> k \<le> 70 then Some (k - 55)
      else None)"

definition parseInt16 :: "string \<Rightarrow> number" where
  "parseInt16 s =
     (let ds = takeWhile (\<lambda>c. hexValue c \<noteq> None) s
      in if ds = [] then NaN
         else Fin (of_nat (foldl (\<lambda>acc c. 16 * acc + the (hexValue c)) 0 ds)))"

text \<open>\<open>s.slice(i, j)\<close> for \<open>0 <= i <= j\<close>.\<close>

definition slice :: "string \<Rightarrow> nat \<Rightarrow> nat \<Rightarrow> string" where
  "slice s i j = take (j - i) (drop i s)"

text \<open>
  The four values assigned to \<open>pixels[pixelIndex .. pixelIndex + 3]\<close> for one cell. The
  \<open>ImageData\<close> store, which turns each into a byte and drops an assignment past its end,
  and the canvas are outside this model.
\<close>

record pixel =
  red :: number
  green :: number
  blue :: number
  alpha :: number

definition pixelOf :: "string \<Rightarrow> number \<Rightarrow> pixel" where
  "pixelOf color opacity =
     (let r = parseInt16 (slice color 1 3);
          g = parseInt16 (slice color 3 5);
          b = parseInt16 (slice color 5 7);
          a = (if length color > 7 then parseInt16 (slice color 7 9) else Fin 255)
      in \<lparr>red = r, green = g, blue = b,
          alpha = mul (mul (divide a (Fin 255)) opacity) (Fin 255)\<rparr>)"

datatype js_error = TypeError

text \<open>
  The loop over the cells: \<open>color.slice\<close> on an \<open>undefined\<close> color throws, which leaves
  the function before \<open>putImageData\<close>.
\<close>

fun writePixels :: "string \<Rightarrow> number \<Rightarrow> number \<Rightarrow> number \<Rightarrow> number list \<Rightarrow> js_error + pixel list" where
  "writePixels dataType mn mx opacity [] = Inr []"
| "writePixels dataType mn mx opacity (value # rest) =
     (case cellColor dataType value mn mx of
        None \<Rightarrow> Inl TypeError
      | Some color \<Rightarrow>
          (case writePixels dataType mn mx opacity rest of
             Inl e \<Rightarrow> Inl e
           | Inr ps \<Rightarrow> Inr (pixelOf color opacity # ps)))"

record render_options =
  opacity_opt :: "number option"
  dataType_opt :: "string option"
  min_opt :: "number option"
  max_opt :: "number option"
  smoothing_opt :: "bool option"

text \<open>
  \<open>renderTIFFToCanvas\<close> with a context that is not null: the pixels it assigns, one per
  cell, none on the early return. An absent option takes its default.
\<close>

definition renderTIFFToCanvas ::
  "number list \<Rightarrow> number \<Rightarrow> number \<Rightarrow> render_options \<Rightarrow> js_error + pixel list" where
  "renderTIFFToCanvas data width height options =
     (if length data = 0 \<or> strictEq width (Fin 0) \<or> strictEq height (Fin 0) then Inr []
      else
        (let opacity = (case opacity_opt options of None \<Rightarrow> Fin 1 | Some v \<Rightarrow> v);
             dataType = (case dataType_opt options of None \<Rightarrow> ''landCover'' | Some v \<Rightarrow> v);
             mn = (case min_opt options of None \<Rightarrow> Fin 0 | Some v \<Rightarrow> v);
             mx = (case max_opt options of None \<Rightarrow> Fin 500 | Some v \<Rightarrow> v)
         in writePixels dataType mn mx opacity data))"

section \<open>Available years and the bracketing years (\<open>MapVisualization.tsx\<close>)\<close>

definition getAvailableYears :: "string \<Rightarrow> number list" where
  "getAvailableYears dataType =
     (let standardYears = map (\<lambda>i. Fin (2010 + of_nat i)) [0..<14]
      in if dataType = ''population'' then [Fin 2010, Fin 2015, Fin 2020] else standardYears)"

record year_bracket =
  prevYear :: number
  nextYear :: number
  progress :: number

text \<open>
  The body of the \<open>useMemo\<close> callback that computes \<open>{ prevYear, nextYear, progress }\<close>,
  after \<open>availableYears\<close> is bound. \<open>includes\<close> finds \<open>NaN\<close> in an array, as equality
  of \<open>number\<close> does here.
\<close>

definition bracketYears :: "number list \<Rightarrow> number \<Rightarrow> year_bracket" where
  "bracketYears availableYears year =
     (if year \<in> set availableYears
      then \<lparr>prevYear = year, nextYear = year, progress = Fin 0\<rparr>
      else
        (let prevY = Math_max (filter (\<lambda>y. le y year) availableYears);
             nextY = Math_min (filter (\<lambda>y. ge y year) availableYears);
             yearRange = sub nextY prevY;
             prog = (if gt yearRange (Fin 0) then divide (sub year prevY) yearRange else Fin 0)
         in \<lparr>prevYear = prevY, nextYear = nextY, progress = prog\<rparr>))"

text \<open>The whole callback, for the component's \<open>year\<close> and \<open>dataType\<close>.\<close>

definition resolveYears :: "number \<Rightarrow> string \<Rightarrow> year_bracket" where
  "resolveYears year dataType = bracketYears (getAvailableYears dataType) year"

section \<open>Statistics (\<open>geospatialUtils.ts\<close>)\<close>

text \<open>
  A \<open>Record<string, number>\<close> is an association list in the order of its properties.
  A statistics function is called in a state of the random source, \<open>rs\<close> and \<open>n\<close>,
  and returns its record with the number of draws made when it returns: one of the five
  functions draws.
\<close>

type_synonym stats = "(string \<times> number) list"

text \<open>
  \<open>Object.keys(landCoverClasses)\<close>, each name with the number it is the string of
  (integer names come first and ascending). \<open>stats[value]\<close> is defined exactly when
  \<open>value\<close> is one of these numbers.
\<close>

definition landCoverKeys :: "(number \<times> string) list" where
  "landCoverKeys =
     [(Fin 0, ''0''), (Fin 7, ''7''), (Fin 8, ''8''), (Fin 9, ''9''), (Fin 10, ''10''),
      (Fin 11, ''11''), (Fin 12, ''12''), (Fin 13, ''13''), (Fin 14, ''14''), (Fin 15, ''15''),
      (Fin 16, ''16'')]"

text \<open>\<open>if (stats[value] !== undefined) stats[value]++\<close>\<close>

definition countCell :: "stats \<Rightarrow> number \<Rightarrow> stats" where
  "countCell st value =
     (case map_of landCoverKeys value of
        None \<Rightarrow> st
      | Some key \<Rightarrow> map (\<lambda>(k, c). if k = key then (k, addD c (Fin 1)) else (k, c)) st)"

definition calculateLandCoverStats :: "draws \<Rightarrow> nat \<Rightarrow> number list \<Rightarrow> stats \<times> nat" where
  "calculateLandCoverStats rs n data =
     (foldl countCell (map (\<lambda>(v, key). (key, Fin 0)) landCoverKeys) data, n)"

definition calculatePrecipitationStats ::
  "draws \<Rightarrow> nat \<Rightarrow> number list \<Rightarrow> number \<Rightarrow> stats \<times> nat" where
  "calculatePrecipitationStats rs n data noDataValue =
     (if length data = 0
      then ([(''average'', Fin 0), (''min'', Fin 0), (''max'', Fin 0), (''total'', Fin 0)], n)
      else
        (let validData =
               filter (\<lambda>value. \<not> strictEq value noDataValue \<and> gt value (lit (1 / 10))) data
         in if length validData = 0
            then ([(''average'', Fin 0), (''min'', Fin 0), (''max'', Fin 0), (''total'', Fin 0)], n)
            else
              (let sum = sumOfD validData;
                   mn = Math_min validData;
                   mx = Math_max validData
               in ([(''average'', divideD sum (lengthOf validData)), (''min'', mn), (''max'', mx),
                    (''total'', sum)], n))))"

definition vegetationZero :: stats where
  "vegetationZero =
     [(''average'', Fin 0), (''min'', Fin 0), (''max'', Fin 0), (''total'', Fin 0),
      (''forestGPP'', Fin 0), (''grasslandGPP'', Fin 0), (''croplandGPP'', Fin 0),
      (''barrenGPP'', Fin 0)]"

definition calculateVegetationStats :: "draws \<Rightarrow> nat \<Rightarrow> number list \<Rightarrow> stats \<times> nat" where
  "calculateVegetationStats rs n data =
     (if length data = 0 then (vegetationZero, n)
      else
        (let validData =
               filter (\<lambda>value. \<not> strictEq value (Fin 65533) \<and> gt value (Fin 0) \<and> lt value (Fin 3000)) data
         in if length validData = 0 then (vegetationZero, n)
            else
              (let sum = sumOfD validData;
                   mn = Math_min validData;
                   mx = Math_max validData
               in ([(''average'', divideD sum (lengthOf validData)), (''min'', mn), (''max'', mx),
                    (''total'', sum),
                    (''forestGPP'', mulD mx (lit (9 / 10))),
                    (''grasslandGPP'', mulD mx (lit (6 / 10))),
                    (''croplandGPP'', mulD mx (lit (7 / 10))),
                    (''barrenGPP'', mulD mn (lit (15 / 10)))], n))))"

definition populationZero :: stats where
  "populationZero =
     [(''totalPopulation'', Fin 0), (''averageDensity'', Fin 0), (''maxDensity'', Fin 0),
      (''urbanPopulation'', Fin 0), (''ruralPopulation'', Fin 0), (''populationGrowthRate'', Fin 0),
      (''populationUnder15'', Fin 0), (''populationOver65'', Fin 0), (''malePopulation'', Fin 0),
      (''femalePopulation'', Fin 0)]"

text \<open>\<open>data.filter(value => value > 0)\<close>, the valid data of \<open>calculatePopulationStats\<close>.\<close>

definition populationValidData :: "number list \<Rightarrow> number list" where
  "populationValidData data = filter (\<lambda>value. gt value (Fin 0)) data"

definition calculatePopulationStats :: "draws \<Rightarrow> nat \<Rightarrow> number list \<Rightarrow> stats \<times> nat" where
  "calculatePopulationStats rs n data =
     (if length data = 0 then (populationZero, n)
      else
        (let validData = populationValidData data
         in if length validData = 0 then (populationZero, n)
            else
              (let sum = sumOfD validData;
                   mx = Math_max validData;
                   totalPopulation = Math_round (mulD sum (lit (1 / 10)));
                   urbanDensityThreshold = mulD mx (lit (3 / 10));
                   urbanPopulationTotal =
                     sumOfD (filter (\<lambda>val. ge val urbanDensityThreshold) validData);
                   urbanPopulation = Math_round (mulD urbanPopulationTotal (lit (1 / 10)));
                   ruralPopulation = subD totalPopulation urbanPopulation;
                   populationUnder15 = Math_round (mulD totalPopulation (lit (44 / 100)));
                   populationOver65 = Math_round (mulD totalPopulation (lit (3 / 100)));
                   femalePopulation = Math_round (mulD totalPopulation (lit (51 / 100)));
                   malePopulation = subD totalPopulation femalePopulation;
                   populationGrowthRate = lit (31 / 10)
               in ([(''totalPopulation'', totalPopulation),
                    (''averageDensity'', divideD sum (lengthOf validData)),
                    (''maxDensity'', mx),
                    (''urbanPopulation'', urbanPopulation),
                    (''ruralPopulation'', ruralPopulation),
                    (''populationGrowthRate'', populationGrowthRate),
                    (''populationUnder15'', populationUnder15),
                    (''populationOver65'', populationOver65),
                    (''malePopulation'', malePopulation),
                    (''femalePopulation'', femalePopulation)], n))))"

text \<open>
  Four draws, in the order of the properties, each multiplied as a double; the array is
  not read.
\<close>

definition calculateTransitionStats :: "draws \<Rightarrow> nat \<Rightarrow> number list \<Rightarrow> stats \<times> nat" where
  "calculateTransitionStats rs n data =
     ([(''transitionIntensity'', mulD (Fin (rs n)) (Fin 10)),
       (''degradedArea'', mulD (Fin (rs (n + 1))) (Fin 1000)),
       (''improvedArea'', mulD (Fin (rs (n + 2))) (Fin 500)),
       (''stableArea'', mulD (Fin (rs (n + 3))) (Fin 2000))],
      n + 4)"

text \<open>
  Two calls of a statistics function, one after the other, on the same array: the second
  call starts in the state of the random source the first one leaves.
\<close>

definition callTwice ::
  "(draws \<Rightarrow> nat \<Rightarrow> number list \<Rightarrow> stats \<times> nat) \<Rightarrow> draws \<Rightarrow> nat \<Rightarrow> number list \<Rightarrow> stats \<times> stats" where
  "callTwice f rs n data =
     (let (first, n1) = f rs n data;
          (second, n2) = f rs n1 data
      in (first, second))"

section \<open>Properties of the interpolation\<close>

lemma blendCells_Cons:
  "fst (blendCells rs n ((s, e) # rest) p) =
     (if strictEq s e then s # fst (blendCells rs n rest p)
      else (if lt (Fin (rs n)) p then e else s) # fst (blendCells rs (Suc n) rest p))"
  by (simp add: Let_def case_prod_unfold)

declare blendCells.simps(2) [simp del]

lemma blendCells_length: "length (fst (blendCells rs n ps p)) = length ps"
  by (induction ps arbitrary: n) (auto simp: blendCells_Cons)

lemma blendCells_choice:
  "i < length ps \<Longrightarrow>
   fst (blendCells rs n ps p) ! i = fst (ps ! i) \<or> fst (blendCells rs n ps p) ! i = snd (ps ! i)"
proof (induction ps arbitrary: n i)
  case Nil
  then show ?case by simp
next
  case (Cons q qs)
  obtain s e where q: "q = (s, e)" by (cases q)
  show ?case
  proof (cases i)
    case 0
    then show ?thesis by (simp add: q blendCells_Cons)
  next
    case (Suc j)
    with Cons.prems have j: "j < length qs" by simp
    from Cons.IH [OF j] show ?thesis
      by (simp add: q Suc blendCells_Cons)
  qed
qed

lemma blendCells_unchanged:
  "i < length ps \<Longrightarrow> strictEq (fst (ps ! i)) (snd (ps ! i)) \<Longrightarrow>
   fst (blendCells rs n ps p) ! i = fst (ps ! i)"
  using blendCells_choice [of i ps rs n p] by (auto simp: strictEq_def)

lemma unitDraws_lt_one: "unitDraws rs \<Longrightarrow> rs k < 1"
  by (simp add: unitDraws_def)

lemma unitDraws_not_lt_zero: "unitDraws rs \<Longrightarrow> \<not> rs k < 0"
  by (simp add: unitDraws_def not_less)

lemma blendCells_one:
  "unitDraws rs \<Longrightarrow> fst (blendCells rs n ps (Fin 1)) = map snd ps"
  by (induction ps arbitrary: n) (auto simp: blendCells_Cons unitDraws_lt_one strictEq_def)

lemma blendCells_zero:
  "unitDraws rs \<Longrightarrow> fst (blendCells rs n ps (Fin 0)) = map fst ps"
  by (induction ps arbitrary: n) (auto simp: blendCells_Cons unitDraws_not_lt_zero strictEq_def)

lemma blendCells_same: "fst (blendCells rs n (zip a a) p) = a"
  by (induction a arbitrary: n) (auto simp: blendCells_Cons)

text \<open>
  C9. When the two arrays differ in length, or one of them is empty,
  \<open>interpolateData\<close> returns the end array itself, for every progress value, and makes
  no random draw; being a total function, it does not fail.
\<close>

theorem interpolateData_shape_mismatch:
  assumes "length startData \<noteq> length endData \<or> startData = [] \<or> endData = []"
  shows "interpolateData rs n startData endData p = (endData, n)"
  using assms by (auto simp: interpolateData_def)

theorem interpolateData_shape_mismatch_witness:
  "length [Fin 7, Fin 8] \<noteq> length [Fin 9]
   \<and> interpolateData (\<lambda>k. 1 / 2) 0 [Fin 7, Fin 8] [Fin 9] (Fin (1 / 2)) = ([Fin 9], 0)
   \<and> interpolateData (\<lambda>k. 1 / 2) 0 [] [] NaN = ([], 0)
   \<and> interpolateData (\<lambda>k. 1 / 2) 3 [Fin 7] [] PInf = ([], 3)"
  using interpolateData_shape_mismatch [of "[Fin 7, Fin 8]" "[Fin 9]" "\<lambda>k. 1 / 2" 0 "Fin (1 / 2)"]
        interpolateData_shape_mismatch [of "[]" "[]" "\<lambda>k. 1 / 2" 0 NaN]
        interpolateData_shape_mismatch [of "[Fin 7]" "[]" "\<lambda>k. 1 / 2" 3 PInf]
  by simp

text \<open>
  C7. For two arrays of the same length that are not empty, and draws in \<open>[0, 1)\<close>,
  \<open>interpolateData(a, b, 1)\<close> returns \<open>b\<close> and \<open>interpolateData(a, b, 0)\<close> returns
  \<open>a\<close>, at every index and whatever the draws are: a draw is below 1 and not below 0.
\<close>

theorem interpolateData_endpoints:
  assumes "unitDraws rs" and "length a = length b" and "a \<noteq> []"
  shows "fst (interpolateData rs n a b (Fin 1)) = b \<and> fst (interpolateData rs n a b (Fin 0)) = a"
  using assms by (auto simp add: interpolateData_def blendCells_one blendCells_zero)

theorem interpolateData_endpoints_witness:
  "unitDraws (\<lambda>k. 1 / 2) \<and> length [Fin 7, Fin 8, NaN] = length [Fin 7, Fin 5, NaN]
   \<and> fst (interpolateData (\<lambda>k. 1 / 2) 0 [Fin 7, Fin 8, NaN] [Fin 7, Fin 5, NaN] (Fin 1))
       = [Fin 7, Fin 5, NaN]
   \<and> fst (interpolateData (\<lambda>k. 1 / 2) 0 [Fin 7, Fin 8, NaN] [Fin 7, Fin 5, NaN] (Fin 0))
       = [Fin 7, Fin 8, NaN]"
proof -
  have u: "unitDraws (\<lambda>k. 1 / 2)" by (simp add: unitDraws_def)
  show ?thesis
    using u interpolateData_endpoints [OF u, of "[Fin 7, Fin 8, NaN]" "[Fin 7, Fin 5, NaN]" 0]
    by simp
qed

text \<open>
  C8. For two arrays of the same length, at an index where the start cell \<open>===\<close> the end
  cell the result is that cell, for every progress and every sequence of draws; and
  \<open>interpolateData(a, a, p)\<close> is \<open>a\<close> for every \<open>p\<close>, as
  \<open>interpolateData([7,7,9], [7,7,9], 0.5)\<close> is \<open>[7,7,9]\<close>.
\<close>

theorem interpolateData_unchanged_cells:
  "(length a = length b \<and> i < length a \<and> strictEq (a ! i) (b ! i)
      \<longrightarrow> fst (interpolateData rs n a b p) ! i = a ! i)
   \<and> fst (interpolateData rs n a a p) = a
   \<and> fst (interpolateData rs n [Fin 7, Fin 7, Fin 9] [Fin 7, Fin 7, Fin 9] (Fin (1 / 2)))
       = [Fin 7, Fin 7, Fin 9]"
proof -
  have same: "fst (interpolateData rs n c c q) = c" for c q
    by (simp add: interpolateData_def blendCells_same)
  have "fst (interpolateData rs n a b p) ! i = a ! i"
    if "length a = length b" "i < length a" "strictEq (a ! i) (b ! i)"
    using that blendCells_unchanged [of i "zip a b" rs n p]
    by (auto simp add: interpolateData_def)
  with same show ?thesis by blast
qed

theorem interpolateData_unchanged_cells_witness:
  "length [Fin 7, Fin 8] = length [Fin 7, Fin 9] \<and> (0::nat) < length [Fin 7, Fin 8]
   \<and> strictEq ([Fin 7, Fin 8] ! 0) ([Fin 7, Fin 9] ! 0)
   \<and> fst (interpolateData (\<lambda>k. 1 / 3) 0 [Fin 7, Fin 8] [Fin 7, Fin 9] (Fin (1 / 2))) ! 0 = Fin 7"
  using interpolateData_unchanged_cells
          [of "[Fin 7, Fin 8]" "[Fin 7, Fin 9]" 0 "\<lambda>k. 1 / 3" 0 "Fin (1 / 2)"]
  by (simp add: strictEq_def)

section \<open>Land-cover rendering\<close>

lemma landCover_fallback: "map_of landCoverColors (Fin 0) = Some ''#4d4d4d''"
  by (simp add: landCoverColors_def)

lemma landCover_fallback_in_table: "''#4d4d4d'' \<in> snd ` set landCoverColors"
  by (simp add: landCoverColors_def)

lemma cellColor_landCover:
  assumes "dataType \<notin> {''precipitation'', ''vegetation'', ''population''}"
  shows "\<exists>c. cellColor dataType v mn mx = Some c \<and> c \<in> snd ` set landCoverColors"
proof (cases "map_of landCoverColors v")
  case None
  with assms show ?thesis
    by (simp add: cellColor_def orElseString_def landCover_fallback landCover_fallback_in_table)
next
  case (Some s)
  then have "(v, s) \<in> set landCoverColors" by (rule map_of_SomeD)
  then have "s \<in> snd ` set landCoverColors" by force
  with Some assms show ?thesis
    by (simp add: cellColor_def orElseString_def landCover_fallback landCover_fallback_in_table)
qed

lemma writePixels_landCover:
  assumes "dataType \<notin> {''precipitation'', ''vegetation'', ''population''}"
  shows "\<exists>colors. writePixels dataType mn mx opacity data = Inr (map (\<lambda>c. pixelOf c opacity) colors)
           \<and> list_all2 (\<lambda>v c. cellColor dataType v mn mx = Some c \<and> c \<in> snd ` set landCoverColors) data colors"
proof (induction data)
  case Nil
  show ?case by simp
next
  case (Cons v vs)
  then obtain colors where w: "writePixels dataType mn mx opacity vs = Inr (map (\<lambda>c. pixelOf c opacity) colors)"
    and l: "list_all2 (\<lambda>v c. cellColor dataType v mn mx = Some c \<and> c \<in> snd ` set landCoverColors) vs colors"
    by blast
  from cellColor_landCover [OF assms, of v mn mx]
  obtain c where c: "cellColor dataType v mn mx = Some c" "c \<in> snd ` set landCoverColors" by blast
  have "writePixels dataType mn mx opacity (v # vs) = Inr (map (\<lambda>c. pixelOf c opacity) (c # colors))"
    by (simp add: c w)
  moreover have "list_all2 (\<lambda>v c. cellColor dataType v mn mx = Some c \<and> c \<in> snd ` set landCoverColors) (v # vs) (c # colors)"
    using c l by simp
  ultimately show ?case by blast
qed

lemma interpolateData_choice:
  assumes "length a = length b" and "a \<noteq> []"
  shows "length (fst (interpolateData rs n a b p)) = length a"
    and "i < length a \<Longrightarrow>
         fst (interpolateData rs n a b p) ! i = a ! i \<or> fst (interpolateData rs n a b p) ! i = b ! i"
  using assms blendCells_choice [of i "zip a b" rs n p]
  by (auto simp add: interpolateData_def blendCells_length)

text \<open>
  C4. For two land-cover arrays of the same length that are not empty, and every progress
  value and sequence of draws: each cell of the interpolated array is the cell of one of
  the two arrays at that index; the land-cover branch of \<open>renderTIFFToCanvas\<close> (any
  \<open>dataType\<close> other than the three continuous ones) gives every value, known code or
  not, a color that is a value of \<open>landCoverColors\<close>, the entry of key 0 when the
  value is no key; so the pixels assigned for the interpolated array, one per cell, are
  those of colors of the table.
\<close>

theorem landCover_pixels_from_table:
  fixes options :: render_options
  defines "dt \<equiv> (case dataType_opt options of None \<Rightarrow> ''landCover'' | Some d \<Rightarrow> d)"
    and "mn \<equiv> (case min_opt options of None \<Rightarrow> Fin 0 | Some v \<Rightarrow> v)"
    and "mx \<equiv> (case max_opt options of None \<Rightarrow> Fin 500 | Some v \<Rightarrow> v)"
    and "op \<equiv> (case opacity_opt options of None \<Rightarrow> Fin 1 | Some v \<Rightarrow> v)"
  assumes same: "length a = length b" and nonempty: "a \<noteq> []"
    and branch: "dt \<notin> {''precipitation'', ''vegetation'', ''population''}"
  shows "\<exists>colors.
           length (fst (interpolateData rs n a b p)) = length a
         \<and> (\<forall>i<length a. fst (interpolateData rs n a b p) ! i = a ! i
                          \<or> fst (interpolateData rs n a b p) ! i = b ! i)
         \<and> (\<forall>v. \<exists>c \<in> snd ` set landCoverColors. cellColor dt v mn mx = Some c)
         \<and> (\<forall>v. map_of landCoverColors v = None
                 \<longrightarrow> cellColor dt v mn mx = map_of landCoverColors (Fin 0))
         \<and> list_all2 (\<lambda>v c. cellColor dt v mn mx = Some c \<and> c \<in> snd ` set landCoverColors)
              (fst (interpolateData rs n a b p)) colors
         \<and> renderTIFFToCanvas (fst (interpolateData rs n a b p)) width height options
             = (if strictEq width (Fin 0) \<or> strictEq height (Fin 0) then Inr []
                else Inr (map (\<lambda>c. pixelOf c op) colors))"
proof -
  let ?out = "fst (interpolateData rs n a b p)"
  from writePixels_landCover [OF branch, of mn mx op ?out]
  obtain colors where w: "writePixels dt mn mx op ?out = Inr (map (\<lambda>c. pixelOf c op) colors)"
    and l: "list_all2 (\<lambda>v c. cellColor dt v mn mx = Some c \<and> c \<in> snd ` set landCoverColors) ?out colors"
    by blast
  have len: "length ?out = length a"
    by (rule interpolateData_choice(1) [OF same nonempty])
  have cells: "\<forall>i<length a. ?out ! i = a ! i \<or> ?out ! i = b ! i"
    using interpolateData_choice(2) [OF same nonempty] by blast
  have table: "\<forall>v. \<exists>c \<in> snd ` set landCoverColors. cellColor dt v mn mx = Some c"
    using cellColor_landCover [OF branch] by blast
  have fallback: "\<forall>v. map_of landCoverColors v = None
                 \<longrightarrow> cellColor dt v mn mx = map_of landCoverColors (Fin 0)"
    using branch by (simp add: cellColor_def orElseString_def landCover_fallback)
  have "?out \<noteq> []" using len nonempty by auto
  then have render: "renderTIFFToCanvas ?out width height options
             = (if strictEq width (Fin 0) \<or> strictEq height (Fin 0) then Inr []
                else Inr (map (\<lambda>c. pixelOf c op) colors))"
    using w by (simp add: renderTIFFToCanvas_def dt_def mn_def mx_def op_def)
  from len cells table fallback l render show ?thesis by blast
qed

theorem landCover_pixels_from_table_witness:
  "length [Fin 7, Fin 8] = length [Fin 7, Fin 9]
   \<and> renderTIFFToCanvas (fst (interpolateData (\<lambda>k. 1 / 2) 0 [Fin 7, Fin 8] [Fin 7, Fin 9] (Fin (1 / 2))))
         (Fin 2) (Fin 1)
         \<lparr>opacity_opt = None, dataType_opt = None, min_opt = None, max_opt = None, smoothing_opt = None\<rparr>
       = Inr [pixelOf ''#1a9850'' (Fin 1), pixelOf ''#91cf60'' (Fin 1)]
   \<and> ''#1a9850'' \<in> snd ` set landCoverColors \<and> ''#91cf60'' \<in> snd ` set landCoverColors
   \<and> pixelOf ''#1a9850'' (Fin 1) = \<lparr>red = Fin 26, green = Fin 152, blue = Fin 80, alpha = Fin 255\<rparr>
   \<and> pixelOf ''#91cf60'' (Fin 1) = \<lparr>red = Fin 145, green = Fin 207, blue = Fin 96, alpha = Fin 255\<rparr>"
proof -
  have rgba: "pixelOf ''#1a9850'' (Fin 1) = \<lparr>red = Fin 26, green = Fin 152, blue = Fin 80, alpha = Fin 255\<rparr>"
    "pixelOf ''#91cf60'' (Fin 1) = \<lparr>red = Fin 145, green = Fin 207, blue = Fin 96, alpha = Fin 255\<rparr>"
    by (simp_all add: pixelOf_def parseInt16_def slice_def hexValue_def)
  let ?o = "\<lparr>opacity_opt = None, dataType_opt = None, min_opt = None, max_opt = None, smoothing_opt = None\<rparr>"
  have out: "fst (interpolateData (\<lambda>k. 1 / 2) 0 [Fin 7, Fin 8] [Fin 7, Fin 9] (Fin (1 / 2))) = [Fin 7, Fin 8]"
    by (simp add: interpolateData_def blendCells_Cons strictEq_def)
  have c7: "cellColor ''landCover'' (Fin 7) (Fin 0) (Fin 500) = Some ''#1a9850''"
    by (simp add: cellColor_def orElseString_def landCoverColors_def)
  have c8: "cellColor ''landCover'' (Fin 8) (Fin 0) (Fin 500) = Some ''#91cf60''"
    by (simp add: cellColor_def orElseString_def landCoverColors_def)
  have t: "''#1a9850'' \<in> snd ` set landCoverColors \<and> ''#91cf60'' \<in> snd ` set landCoverColors"
    by (simp add: landCoverColors_def)
  from landCover_pixels_from_table [of "[Fin 7, Fin 8]" "[Fin 7, Fin 9]" ?o "\<lambda>k. 1 / 2" 0 "Fin (1 / 2)" "Fin 2" "Fin 1"]
  obtain colors where
    l: "list_all2 (\<lambda>v c. cellColor ''landCover'' v (Fin 0) (Fin 500) = Some c \<and> c \<in> snd ` set landCoverColors)
          [Fin 7, Fin 8] colors"
    and r: "renderTIFFToCanvas [Fin 7, Fin 8] (Fin 2) (Fin 1) ?o = Inr (map (\<lambda>c. pixelOf c (Fin 1)) colors)"
    by (auto simp add: out strictEq_def)
  from l have "colors = [''#1a9850'', ''#91cf60'']"
    by (auto simp add: list_all2_Cons1 c7 c8)
  with r t rgba show ?thesis by (simp add: out)
qed

section \<open>The bracketing years\<close>

lemma Math_max2_Fin: "Math_max2 (Fin a) (Fin b) = Fin (max a b)"
  by (simp add: Math_max2_def max_def)

lemma Math_min2_Fin: "Math_min2 (Fin a) (Fin b) = Fin (min a b)"
  by (auto simp add: Math_min2_def min_def)

lemma foldl_Math_max2_Fin: "foldl Math_max2 (Fin m) (map Fin zs) = Fin (fold max zs m)"
  by (induction zs arbitrary: m) (simp_all add: Math_max2_Fin max.commute)

lemma foldl_Math_min2_Fin: "foldl Math_min2 (Fin m) (map Fin zs) = Fin (fold min zs m)"
  by (induction zs arbitrary: m) (simp_all add: Math_min2_Fin min.commute)

lemma Math_max_Fin: "zs \<noteq> [] \<Longrightarrow> Math_max (map Fin zs) = Fin (Max (set zs))"
proof (cases zs)
  case Nil
  assume "zs \<noteq> []"
  with Nil show ?thesis by simp
next
  case (Cons z rest)
  have "Math_max (map Fin zs) = foldl Math_max2 (Fin z) (map Fin rest)"
    by (simp add: Cons Math_max_def Math_max2_def)
  also have "\<dots> = Fin (fold max rest z)" by (rule foldl_Math_max2_Fin)
  also have "fold max rest z = Max (set zs)"
    using Max.set_eq_fold [of z rest] by (simp add: Cons)
  finally show ?thesis .
qed

lemma Math_min_Fin: "zs \<noteq> [] \<Longrightarrow> Math_min (map Fin zs) = Fin (Min (set zs))"
proof (cases zs)
  case Nil
  assume "zs \<noteq> []"
  with Nil show ?thesis by simp
next
  case (Cons z rest)
  have "Math_min (map Fin zs) = foldl Math_min2 (Fin z) (map Fin rest)"
    by (simp add: Cons Math_min_def Math_min2_def)
  also have "\<dots> = Fin (fold min rest z)" by (rule foldl_Math_min2_Fin)
  also have "fold min rest z = Min (set zs)"
    using Min.set_eq_fold [of z rest] by (simp add: Cons)
  finally show ?thesis .
qed

lemma filter_le_Fin: "filter (\<lambda>a. le a (Fin y)) (map Fin ys) = map Fin (filter (\<lambda>a. a \<le> y) ys)"
  by (induction ys) (auto simp add: le_def strictEq_def)

lemma filter_ge_Fin: "filter (\<lambda>a. ge a (Fin y)) (map Fin ys) = map Fin (filter (\<lambda>a. y \<le> a) ys)"
  by (induction ys) (auto simp add: ge_def le_def strictEq_def)

lemma bracketYears_between:
  assumes lo: "lo \<in> set ys" "lo \<le> y" and hi: "hi \<in> set ys" "y \<le> hi"
  shows "bracketYears (map Fin ys) (Fin y) =
           \<lparr>prevYear = Fin (Max {a \<in> set ys. a \<le> y}),
            nextYear = Fin (Min {a \<in> set ys. y \<le> a}),
            progress = (if Max {a \<in> set ys. a \<le> y} = Min {a \<in> set ys. y \<le> a} then Fin 0
                        else Fin ((y - Max {a \<in> set ys. a \<le> y})
                                   / (Min {a \<in> set ys. y \<le> a} - Max {a \<in> set ys. a \<le> y})))\<rparr>"
proof (cases "y \<in> set ys")
  case True
  have "Max {a \<in> set ys. a \<le> y} = y"
    using True by (intro Max_eqI) auto
  moreover have "Min {a \<in> set ys. y \<le> a} = y"
    using True by (intro Min_eqI) auto
  ultimately show ?thesis using True by (simp add: bracketYears_def)
next
  case False
  let ?below = "filter (\<lambda>a. a \<le> y) ys" and ?above = "filter (\<lambda>a. y \<le> a) ys"
  let ?p = "Max {a \<in> set ys. a \<le> y}" and ?q = "Min {a \<in> set ys. y \<le> a}"
  have sets: "set ?below = {a \<in> set ys. a \<le> y}" "set ?above = {a \<in> set ys. y \<le> a}" by auto
  have ne: "?below \<noteq> []" "?above \<noteq> []"
    using lo hi by (auto simp add: filter_empty_conv)
  have "?p \<in> {a \<in> set ys. a \<le> y}"
    using lo by (intro Max_in) auto
  then have "?p \<in> set ys" and "?p \<le> y" by blast+
  with False have p: "?p < y" by (cases "?p = y") auto
  have "?q \<in> {a \<in> set ys. y \<le> a}"
    using hi by (intro Min_in) auto
  then have "?q \<in> set ys" and "y \<le> ?q" by blast+
  with False have q: "y < ?q" by (cases "?q = y") auto
  have prev: "Math_max (filter (\<lambda>a. le a (Fin y)) (map Fin ys)) = Fin ?p"
    using Math_max_Fin [OF ne(1)] by (simp add: filter_le_Fin sets)
  have "next": "Math_min (filter (\<lambda>a. ge a (Fin y)) (map Fin ys)) = Fin ?q"
    using Math_min_Fin [OF ne(2)] by (simp add: filter_ge_Fin sets)
  have "Fin y \<notin> set (map Fin ys)" using False by auto
  then show ?thesis
    using p q by (simp add: bracketYears_def prev "next" Let_def sub_def gt_def)
qed

lemma bracketYears_above:
  assumes "ys \<noteq> []" and "Max (set ys) < y"
  shows "bracketYears (map Fin ys) (Fin y) =
           \<lparr>prevYear = Fin (Max (set ys)), nextYear = PInf, progress = Fin 0\<rparr>"
proof -
  have all: "\<forall>a \<in> set ys. a < y" using assms by (simp add: Max_less_iff)
  then have below: "filter (\<lambda>a. a \<le> y) ys = ys" by (auto simp add: filter_id_conv)
  from all have above: "filter (\<lambda>a. y \<le> a) ys = []" by (auto simp add: filter_empty_conv)
  from all have "Fin y \<notin> set (map Fin ys)" by auto
  then show ?thesis
    using Math_max_Fin [OF assms(1)]
    by (simp add: bracketYears_def filter_le_Fin filter_ge_Fin below above Let_def sub_def gt_def
        Math_min_def)
qed

lemma bracketYears_below:
  assumes "ys \<noteq> []" and "y < Min (set ys)"
  shows "bracketYears (map Fin ys) (Fin y) =
           \<lparr>prevYear = NInf, nextYear = Fin (Min (set ys)), progress = NaN\<rparr>"
proof -
  have all: "\<forall>a \<in> set ys. y < a" using assms by (simp add: Min_gr_iff)
  then have above: "filter (\<lambda>a. y \<le> a) ys = ys" by (auto simp add: filter_id_conv)
  from all have below: "filter (\<lambda>a. a \<le> y) ys = []" by (auto simp add: filter_empty_conv)
  from all have "Fin y \<notin> set (map Fin ys)" by auto
  then show ?thesis
    using Math_min_Fin [OF assms(1)]
    by (simp add: bracketYears_def filter_le_Fin filter_ge_Fin below above Let_def sub_def gt_def
        Math_max_def)
qed

lemma getAvailableYears_population: "getAvailableYears ''population'' = map Fin [2010, 2015, 2020]"
  by (simp add: getAvailableYears_def)

lemma upt_14: "[0..<14] = [0,1,2,3,4,5,6,7,8,9,10,11,12,13]"
  by (simp add: upt_rec)

lemma getAvailableYears_standard:
  "dataType \<noteq> ''population'' \<Longrightarrow>
   getAvailableYears dataType =
     map Fin [2010, 2011, 2012, 2013, 2014, 2015, 2016, 2017, 2018, 2019, 2020, 2021, 2022, 2023]"
  by (simp add: getAvailableYears_def upt_14)

lemma getAvailableYears_nonempty: "getAvailableYears dataType \<noteq> []"
  by (simp add: getAvailableYears_def upt_14)

text \<open>
  C6. For a requested year within the range of the available years of a dataset, the
  callback returns as \<open>prevYear\<close> the greatest available year not above it, as
  \<open>nextYear\<close> the least available year not below it, and as \<open>progress\<close> 0 when
  the two are equal and \<open>(year - prevYear) / (nextYear - prevYear)\<close> otherwise;
  year 2013 against the population years \<open>[2010, 2015, 2020]\<close> gives 2010, 2015 and 0.6.
\<close>

theorem resolveYears_within_range:
  assumes years: "getAvailableYears dataType = map Fin ys"
    and lower: "Min (set ys) \<le> y" and upper: "y \<le> Max (set ys)"
  shows "resolveYears (Fin y) dataType =
           \<lparr>prevYear = Fin (Max {a \<in> set ys. a \<le> y}),
            nextYear = Fin (Min {a \<in> set ys. y \<le> a}),
            progress = (if Max {a \<in> set ys. a \<le> y} = Min {a \<in> set ys. y \<le> a} then Fin 0
                        else Fin ((y - Max {a \<in> set ys. a \<le> y})
                                   / (Min {a \<in> set ys. y \<le> a} - Max {a \<in> set ys. a \<le> y})))\<rparr>
         \<and> resolveYears (Fin 2013) ''population'' =
             \<lparr>prevYear = Fin 2010, nextYear = Fin 2015, progress = Fin (6 / 10)\<rparr>"
proof -
  have ne: "ys \<noteq> []" using years getAvailableYears_nonempty [of dataType] by auto
  then have "Min (set ys) \<in> set ys" and "Max (set ys) \<in> set ys" by simp_all
  from bracketYears_between [OF this(1) lower this(2) upper]
  have general: "resolveYears (Fin y) dataType =
           \<lparr>prevYear = Fin (Max {a \<in> set ys. a \<le> y}),
            nextYear = Fin (Min {a \<in> set ys. y \<le> a}),
            progress = (if Max {a \<in> set ys. a \<le> y} = Min {a \<in> set ys. y \<le> a} then Fin 0
                        else Fin ((y - Max {a \<in> set ys. a \<le> y})
                                   / (Min {a \<in> set ys. y \<le> a} - Max {a \<in> set ys. a \<le> y})))\<rparr>"
    by (simp add: resolveYears_def years)
  have example: "resolveYears (Fin 2013) ''population'' =
             \<lparr>prevYear = Fin 2010, nextYear = Fin 2015, progress = Fin (6 / 10)\<rparr>"
    by (simp add: resolveYears_def getAvailableYears_def bracketYears_def le_def ge_def
        strictEq_def Math_max_def Math_min_def Math_max2_def Math_min2_def sub_def gt_def)
  from general example show ?thesis by (rule conjI)
qed

theorem resolveYears_within_range_witness:
  "getAvailableYears ''population'' = map Fin [2010, 2015, 2020]
   \<and> Min (set [2010, 2015, 2020]) \<le> (2017 :: rat) \<and> (2017 :: rat) \<le> Max (set [2010, 2015, 2020])
   \<and> resolveYears (Fin 2017) ''population'' =
       \<lparr>prevYear = Fin 2015, nextYear = Fin 2020, progress = Fin (2 / 5)\<rparr>"
proof -
  have below: "{a \<in> set [2010, 2015, 2020]. a \<le> (2017 :: rat)} = {2010, 2015}" by auto
  have above: "{a \<in> set [2010, 2015, 2020]. (2017 :: rat) \<le> a} = {2020}" by auto
  have "getAvailableYears ''population'' = map Fin [2010, 2015, 2020]"
    by (simp add: getAvailableYears_def)
  moreover have "Min (set [2010, 2015, 2020]) \<le> (2017 :: rat)"
    and "(2017 :: rat) \<le> Max (set [2010, 2015, 2020])" by simp_all
  ultimately show ?thesis
    using resolveYears_within_range [of "''population''" "[2010, 2015, 2020]" 2017]
    unfolding below above by simp
qed

text \<open>
  C1, as claimed: a requested year outside the range gets both years clamped to the
  nearest endpoint. The code does not clamp: year 2023 against the population years has
  no available year at or above it, and \<open>nextYear\<close> is \<open>Math.min()\<close>, which is
  \<open>Infinity\<close>, not 2020.
\<close>

theorem resolveYears_outside_counterexample:
  "resolveYears (Fin 2023) ''population'' =
     \<lparr>prevYear = Fin 2020, nextYear = PInf, progress = Fin 0\<rparr>
   \<and> nextYear (resolveYears (Fin 2023) ''population'') \<noteq> Fin 2020"
  by (simp add: resolveYears_def getAvailableYears_def bracketYears_def le_def ge_def
      strictEq_def Math_max_def Math_min_def Math_max2_def Math_min2_def sub_def gt_def)

text \<open>
  C1, amended. For a requested (finite) year above every available year of a dataset,
  \<open>prevYear\<close> is the last available year and \<open>progress\<close> is 0, while
  \<open>nextYear\<close> is \<open>Infinity\<close>; for one below every available year, \<open>nextYear\<close>
  is the first available year, while \<open>prevYear\<close> is \<open>-Infinity\<close> and
  \<open>progress\<close> is \<open>NaN\<close>. Year 2023 against the population years gives 2020,
  \<open>Infinity\<close> and 0.
\<close>

theorem resolveYears_outside_range:
  assumes years: "getAvailableYears dataType = map Fin ys"
  shows "(Max (set ys) < y \<longrightarrow>
            resolveYears (Fin y) dataType =
              \<lparr>prevYear = Fin (Max (set ys)), nextYear = PInf, progress = Fin 0\<rparr>)
       \<and> (y < Min (set ys) \<longrightarrow>
            resolveYears (Fin y) dataType =
              \<lparr>prevYear = NInf, nextYear = Fin (Min (set ys)), progress = NaN\<rparr>)
       \<and> resolveYears (Fin 2023) ''population'' =
           \<lparr>prevYear = Fin 2020, nextYear = PInf, progress = Fin 0\<rparr>"
proof -
  have ne: "ys \<noteq> []" using years getAvailableYears_nonempty [of dataType] by auto
  have "resolveYears (Fin 2023) ''population'' =
           \<lparr>prevYear = Fin 2020, nextYear = PInf, progress = Fin 0\<rparr>"
    using bracketYears_above [of "[2010, 2015, 2020]" 2023]
    by (simp add: resolveYears_def getAvailableYears_population)
  then show ?thesis
    using bracketYears_above [OF ne, of y] bracketYears_below [OF ne, of y]
    by (simp add: resolveYears_def years)
qed

theorem resolveYears_outside_range_witness:
  "getAvailableYears ''landCover'' =
     map Fin [2010, 2011, 2012, 2013, 2014, 2015, 2016, 2017, 2018, 2019, 2020, 2021, 2022, 2023]
   \<and> Max (set [2010, 2011, 2012, 2013, 2014, 2015, 2016, 2017, 2018, 2019, 2020, 2021, 2022, 2023])
       < (2024 :: rat)
   \<and> resolveYears (Fin 2024) ''landCover'' =
       \<lparr>prevYear = Fin 2023, nextYear = PInf, progress = Fin 0\<rparr>
   \<and> (2005 :: rat)
       < Min (set [2010, 2011, 2012, 2013, 2014, 2015, 2016, 2017, 2018, 2019, 2020, 2021, 2022, 2023])
   \<and> resolveYears (Fin 2005) ''landCover'' =
       \<lparr>prevYear = NInf, nextYear = Fin 2010, progress = NaN\<rparr>"
  using resolveYears_outside_range [of "''landCover''"
          "[2010, 2011, 2012, 2013, 2014, 2015, 2016, 2017, 2018, 2019, 2020, 2021, 2022, 2023]" 2024]
        resolveYears_outside_range [of "''landCover''"
          "[2010, 2011, 2012, 2013, 2014, 2015, 2016, 2017, 2018, 2019, 2020, 2021, 2022, 2023]" 2005]
  by (simp add: getAvailableYears_standard)

section \<open>Rounding to the nearest double\<close>

text \<open>
  The rounding is monotone and idempotent, it is exact on the integers up to \<open>2^53\<close> in
  magnitude, it never yields \<open>NaN\<close>, and it overflows from \<open>2^1024\<close> on.
\<close>

lemma rne_of_int: "rne (of_int k) = k"
  by (simp add: rne_def)

lemma rne_lower: "\<lfloor>q\<rfloor> \<le> rne q"
  by (simp add: rne_def Let_def)

lemma rne_upper: "rne q \<le> \<lfloor>q\<rfloor> + 1"
  by (simp add: rne_def Let_def)

lemma rne_mono: "q \<le> q' \<Longrightarrow> rne q \<le> rne q'"
proof -
  assume le: "q \<le> q'"
  then have fl: "\<lfloor>q\<rfloor> \<le> \<lfloor>q'\<rfloor>" by (rule floor_mono)
  show ?thesis
  proof (cases "\<lfloor>q\<rfloor> = \<lfloor>q'\<rfloor>")
    case True
    with le have "q - of_int \<lfloor>q\<rfloor> \<le> q' - of_int \<lfloor>q'\<rfloor>" by simp
    with True show ?thesis by (auto simp add: rne_def Let_def)
  next
    case False
    with fl have "\<lfloor>q\<rfloor> + 1 \<le> \<lfloor>q'\<rfloor>" by simp
    with rne_upper [of q] rne_lower [of q'] show ?thesis by linarith
  qed
qed

lemma powi_nat: "0 \<le> k \<Longrightarrow> (2::rat) powi k = of_int (2 ^ nat k)"
  by (simp add: power_int_def)

lemma exponent_bounds:
  assumes "0 < r"
  shows "2 powi exponent r \<le> r" and "r < 2 powi (exponent r + 1)"
proof -
  obtain p q where pq: "quotient_of r = (p, q)" by (cases "quotient_of r")
  then have r: "r = of_int p / of_int q" by (rule quotient_of_div)
  from pq have q: "0 < q" by (rule quotient_of_denom_pos)
  with assms r have p: "0 < p" by (simp add: zero_less_divide_iff)
  let ?k = "bitlen p - bitlen q"
  from bitlen_bounds [OF p] have pb: "2 ^ nat (bitlen p - 1) \<le> p" "p < 2 ^ nat (bitlen p)" by auto
  from bitlen_bounds [OF q] have qb: "2 ^ nat (bitlen q - 1) \<le> q" "q < 2 ^ nat (bitlen q)" by auto
  have bp: "1 \<le> bitlen p" using p by (simp add: bitlen_alt_def)
  have bq: "1 \<le> bitlen q" using q by (simp add: bitlen_alt_def)
  have P1: "(2::rat) powi (bitlen p - 1) \<le> of_int p"
    using pb(1) bp by (simp only: powi_nat of_int_le_iff)
  have P2: "of_int p < (2::rat) powi (bitlen p)"
    using pb(2) bp by (simp only: powi_nat of_int_less_iff)
  have Q1: "(2::rat) powi (bitlen q - 1) \<le> of_int q"
    using qb(1) bq by (simp only: powi_nat of_int_le_iff)
  have Q2: "of_int q < (2::rat) powi (bitlen q)"
    using qb(2) bq by (simp only: powi_nat of_int_less_iff)
  have qpos: "(0::rat) < of_int q" using q by simp
  have upper: "r < 2 powi (?k + 1)"
  proof -
    have "r * 2 powi (bitlen q - 1) \<le> r * of_int q"
      using Q1 assms by (simp add: mult_left_mono)
    also have "\<dots> = of_int p" using r qpos by simp
    also have "\<dots> < 2 powi (bitlen p)" by (rule P2)
    also have "\<dots> = 2 powi (?k + 1) * 2 powi (bitlen q - 1)"
      by (simp add: power_int_add [symmetric])
    finally show ?thesis by (simp add: mult_less_cancel_right)
  qed
  have lower: "2 powi (?k - 1) < r"
  proof -
    have "(2::rat) powi (?k - 1) * of_int q < 2 powi (?k - 1) * 2 powi (bitlen q)"
      using Q2 by (simp add: mult_strict_left_mono)
    also have "\<dots> = 2 powi (bitlen p - 1)" by (simp add: power_int_add [symmetric])
    also have "\<dots> \<le> of_int p" by (rule P1)
    also have "\<dots> = r * of_int q" using r qpos by simp
    finally show ?thesis using qpos by (simp add: mult_less_cancel_right)
  qed
  have e: "exponent r = (if 2 powi ?k \<le> r then ?k else ?k - 1)"
    by (simp add: exponent_def pq)
  show "2 powi exponent r \<le> r"
    using lower by (simp add: e)
  show "r < 2 powi (exponent r + 1)"
    using upper by (auto simp add: e not_le)
qed

lemma pow2_less_iff: "(2::rat) powi a < 2 powi b \<longleftrightarrow> a < b"
proof
  assume "(2::rat) powi a < 2 powi b"
  show "a < b"
  proof (rule ccontr)
    assume "\<not> a < b"
    then have "b \<le> a" by simp
    then have "(2::rat) powi b \<le> 2 powi a" by (rule power_int_increasing) simp
    with \<open>(2::rat) powi a < 2 powi b\<close> show False by simp
  qed
next
  assume "a < b"
  then show "(2::rat) powi a < 2 powi b" by (rule power_int_strict_increasing) simp
qed

lemma pow2_le_iff: "(2::rat) powi a \<le> 2 powi b \<longleftrightarrow> a \<le> b"
  using pow2_less_iff [of b a] by (auto simp add: not_less [symmetric])

lemma exponent_less: "0 < r \<Longrightarrow> r < 2 powi (e + 1) \<Longrightarrow> exponent r \<le> e"
proof -
  assume "0 < r" and "r < 2 powi (e + 1)"
  with exponent_bounds(1) [of r] have "(2::rat) powi exponent r < 2 powi (e + 1)" by simp
  then show ?thesis by (simp add: pow2_less_iff)
qed


lemma exponent_mono: "0 < r \<Longrightarrow> r \<le> s \<Longrightarrow> exponent r \<le> exponent s"
proof -
  assume r: "0 < r" and rs: "r \<le> s"
  then have "r < 2 powi (exponent s + 1)" using exponent_bounds(2) [of s] by simp
  with r show ?thesis by (rule exponent_less)
qed

lemma pow2_split: "(2::rat) powi (a + b) = 2 powi a * 2 powi b"
  by (simp add: power_int_add)

lemma ulp_times_53: "2 ^ 53 * ulp r = 2 powi (max (exponent r) (- 1022) + 1)"
  using pow2_split [of 53 "max (exponent r) (- 1022) - 52"] by (simp add: ulp_def add.commute)

lemma ulp_times_52: "2 ^ 52 * ulp r = 2 powi (max (exponent r) (- 1022))"
  using pow2_split [of 52 "max (exponent r) (- 1022) - 52"] by (simp add: ulp_def add.commute)

lemma rne_zero: "rne 0 = 0"
  by (simp add: rne_def)

lemma ulp_pos: "0 < ulp r"
  by (simp add: ulp_def)

lemma nearest_pos: "0 < r \<Longrightarrow> nearest r = of_int (rne (r / ulp r)) * ulp r"
  by (simp add: nearest_def)

lemma nearest_minus: "nearest (- r) = - nearest r"
  by (simp add: nearest_def sgn_minus)

lemma nearest_zero: "nearest 0 = 0"
  by (simp add: nearest_def)

lemma quotient_below:
  assumes "0 < r"
  shows "r / ulp r < 2 ^ 53"
proof -
  let ?E = "max (exponent r) (- 1022)"
  have "r < 2 powi (exponent r + 1)" using assms by (rule exponent_bounds(2))
  also have "\<dots> \<le> 2 powi (?E + 1)" by (simp add: pow2_le_iff)
  also have "\<dots> = 2 ^ 53 * ulp r" by (simp only: ulp_times_53)
  finally show ?thesis using ulp_pos [of r] by (simp add: pos_divide_less_eq)
qed

lemma rne_nonneg: "0 \<le> q \<Longrightarrow> 0 \<le> rne q"
  using rne_mono [of 0 q] by (simp add: rne_zero)

lemma nearest_nonneg: "0 \<le> r \<Longrightarrow> 0 \<le> nearest r"
proof (cases "r = 0")
  case True
  then show ?thesis by (simp add: nearest_zero)
next
  case False
  assume "0 \<le> r"
  with False have r: "0 < r" by simp
  then have "0 \<le> r / ulp r" using ulp_pos [of r] by simp
  then have "0 \<le> rne (r / ulp r)" by (rule rne_nonneg)
  then show ?thesis using ulp_pos [of r] by (simp add: nearest_pos [OF r])
qed

lemma nearest_upper:
  assumes "0 < r"
  shows "nearest r \<le> 2 powi (max (exponent r) (- 1022) + 1)"
proof -
  have "\<lfloor>r / ulp r\<rfloor> < 2 ^ 53"
    using quotient_below [OF assms] by (simp add: floor_less_iff)
  then have "rne (r / ulp r) \<le> 2 ^ 53" using rne_upper [of "r / ulp r"] by linarith
  then have "(of_int (rne (r / ulp r)) :: rat) \<le> of_int (2 ^ 53)" by (simp only: of_int_le_iff)
  then have "of_int (rne (r / ulp r)) * ulp r \<le> 2 ^ 53 * ulp r"
    using ulp_pos [of r] by (simp add: mult_right_mono)
  also have "\<dots> = 2 powi (max (exponent r) (- 1022) + 1)"
    by (simp only: ulp_times_53)
  finally show ?thesis by (simp add: nearest_pos [OF assms])
qed

lemma nearest_lower:
  assumes "0 < r" and "- 1022 \<le> exponent r"
  shows "2 powi (exponent r) \<le> nearest r"
proof -
  have E: "max (exponent r) (- 1022) = exponent r" using assms(2) by simp
  have "2 ^ 52 * ulp r = 2 powi (exponent r)" using ulp_times_52 [of r] by (simp only: E)
  also have "\<dots> \<le> r" using assms(1) by (rule exponent_bounds(1))
  finally have "2 ^ 52 \<le> r / ulp r" using ulp_pos [of r] by (simp add: pos_le_divide_eq)
  then have "(2 ^ 52 :: int) \<le> \<lfloor>r / ulp r\<rfloor>" by (simp add: le_floor_iff)
  with rne_lower [of "r / ulp r"] have "2 ^ 52 \<le> rne (r / ulp r)" by linarith
  then have "(of_int (2 ^ 52) :: rat) \<le> of_int (rne (r / ulp r))" by (simp only: of_int_le_iff)
  then have "2 ^ 52 * ulp r \<le> of_int (rne (r / ulp r)) * ulp r"
    using ulp_pos [of r] by (simp add: mult_right_mono)
  then show ?thesis
    using ulp_times_52 [of r] by (simp add: nearest_pos [OF assms(1)] E)
qed

lemma nearest_pos_mono:
  assumes "0 < r" and "r \<le> s"
  shows "nearest r \<le> nearest s"
proof -
  have s: "0 < s" using assms by simp
  let ?Er = "max (exponent r) (- 1022)" and ?Es = "max (exponent s) (- 1022)"
  have E: "?Er \<le> ?Es" using exponent_mono [OF assms] by simp
  show ?thesis
  proof (cases "?Er = ?Es")
    case True
    then have u: "ulp r = ulp s" by (simp add: ulp_def)
    have "r / ulp s \<le> s / ulp s" using assms(2) ulp_pos [of s] by (simp add: divide_right_mono)
    then have "rne (r / ulp s) \<le> rne (s / ulp s)" by (rule rne_mono)
    then have "(of_int (rne (r / ulp s)) :: rat) \<le> of_int (rne (s / ulp s))"
      by (simp only: of_int_le_iff)
    then show ?thesis
      using ulp_pos [of s] by (simp add: nearest_pos [OF assms(1)] nearest_pos [OF s] u mult_right_mono)
  next
    case False
    with E have lt: "?Er < ?Es" by linarith
    then have es: "- 1022 \<le> exponent s" and Es: "?Es = exponent s" by linarith+
    have "nearest r \<le> 2 powi (?Er + 1)" by (rule nearest_upper [OF assms(1)])
    also have "\<dots> \<le> 2 powi (exponent s)"
    proof -
      have "?Er + 1 \<le> exponent s" using lt Es by linarith
      then show ?thesis by (simp only: pow2_le_iff)
    qed
    also have "\<dots> \<le> nearest s" by (rule nearest_lower [OF s es])
    finally show ?thesis .
  qed
qed

lemma nearest_mono: "r \<le> s \<Longrightarrow> nearest r \<le> nearest s"
proof -
  assume rs: "r \<le> s"
  consider "0 < r" | "r \<le> 0" "0 \<le> s" | "s < 0" by linarith
  then show ?thesis
  proof cases
    case 1
    then show ?thesis using rs by (rule nearest_pos_mono)
  next
    case 2
    have "nearest r = - nearest (- r)" using nearest_minus [of "- r"] by simp
    moreover have "0 \<le> nearest (- r)" using 2(1) by (simp add: nearest_nonneg)
    moreover have "0 \<le> nearest s" using 2(2) by (rule nearest_nonneg)
    ultimately show ?thesis by simp
  next
    case 3
    then have "0 < - s" and "- s \<le> - r" using rs by simp_all
    then have "nearest (- s) \<le> nearest (- r)" by (rule nearest_pos_mono)
    then show ?thesis by (simp add: nearest_minus)
  qed
qed

lemma nearest_fixed:
  assumes "0 < x" and "x / ulp x = of_int j"
  shows "nearest x = x"
  using assms ulp_pos [of x] by (simp add: nearest_pos rne_of_int) (simp add: field_simps)

lemma pow2_nat_int: "0 \<le> k \<Longrightarrow> \<exists>j. (2::rat) powi k = of_int j"
  using powi_nat by blast

lemma nearest_of_int_pos:
  assumes "0 < k" and "k \<le> 2 ^ 53"
  shows "nearest (of_int k) = of_int k"
proof -
  let ?r = "of_int k :: rat"
  have r: "0 < ?r" using assms(1) by simp
  have "?r \<le> of_int (2 ^ 53)" using assms(2) by (simp only: of_int_le_iff)
  then have le: "?r \<le> 2 powi 53" by simp
  then have "?r < 2 powi (53 + 1)"
    using pow2_less_iff [of 53 "53 + 1"] by simp
  with r have e: "exponent ?r \<le> 53" by (rule exponent_less)
  let ?E = "max (exponent ?r) (- 1022)"
  have E: "?E \<le> 53" using e by simp
  show ?thesis
  proof (cases "?E \<le> 52")
    case True
    then obtain j where j: "(2::rat) powi (52 - ?E) = of_int j"
      using pow2_nat_int [of "52 - ?E"] by auto
    have "?r / ulp ?r = ?r * 2 powi (52 - ?E)"
      by (simp add: ulp_def power_int_diff field_simps)
    also have "\<dots> = of_int (k * j)" by (simp add: j)
    finally show ?thesis using r by (rule nearest_fixed [rotated])
  next
    case False
    with E have E53: "?E = 53" by simp
    then have "exponent ?r = 53" by (simp add: max_def split: if_splits)
    with exponent_bounds(1) [OF r] have "2 powi 53 \<le> ?r" by simp
    with le have eq: "?r = 2 powi 53" by simp
    have "ulp ?r = 2" using E53 by (simp add: ulp_def)
    then have "?r / ulp ?r = of_int (2 ^ 52)" by (simp add: eq)
    with r show ?thesis by (rule nearest_fixed)
  qed
qed

lemma nearest_of_int:
  assumes "\<bar>k\<bar> \<le> 2 ^ 53"
  shows "nearest (of_int k) = of_int k"
proof -
  consider "0 < k" | "k = 0" | "k < 0" by linarith
  then show ?thesis
  proof cases
    case 1
    with assms show ?thesis by (simp add: nearest_of_int_pos)
  next
    case 2
    then show ?thesis by (simp add: nearest_zero)
  next
    case 3
    with assms have "0 < - k" and "- k \<le> 2 ^ 53" by simp_all
    then have "nearest (of_int (- k)) = of_int (- k)" by (rule nearest_of_int_pos)
    then show ?thesis using nearest_minus [of "of_int k"] by simp
  qed
qed

lemma nearest_idem_pos:
  assumes "0 < r"
  shows "nearest (nearest r) = nearest r"
proof -
  let ?e = "max (exponent r) (- 1022)"
  let ?m = "rne (r / ulp r)"
  let ?x = "nearest r"
  have U: "ulp r = 2 powi (?e - 52)" by (simp add: ulp_def)
  have x: "?x = of_int ?m * ulp r" by (simp add: nearest_pos [OF assms])
  have m0: "0 \<le> ?m" using assms ulp_pos [of r] by (intro rne_nonneg) simp
  show ?thesis
  proof (cases "?m = 0")
    case True
    with x show ?thesis by (simp add: nearest_zero)
  next
    case False
    with m0 have m: "0 < ?m" by simp
    then have xpos: "0 < ?x" using ulp_pos [of r] by (simp add: x)
    let ?e' = "max (exponent ?x) (- 1022)"
    show ?thesis
    proof (cases "?e' \<le> ?e")
      case True
      then obtain j where j: "(2::rat) powi (?e - ?e') = of_int j"
        using pow2_nat_int [of "?e - ?e'"] by auto
      have "ulp ?x = 2 powi (?e' - 52)" by (simp add: ulp_def)
      then have "?x / ulp ?x = of_int ?m * (2 powi (?e - 52) / 2 powi (?e' - 52))"
        by (simp add: x U)
      also have "2 powi (?e - 52) / 2 powi (?e' - 52) = (2::rat) powi (?e - ?e')"
        by (simp add: power_int_diff [symmetric])
      also have "of_int ?m * (2::rat) powi (?e - ?e') = of_int (?m * j)" by (simp add: j)
      finally show ?thesis using xpos by (rule nearest_fixed [rotated])
    next
      case False
      then have lt: "?e < ?e'" by linarith
      then have ex: "- 1022 \<le> exponent ?x" and e': "?e' = exponent ?x"
        by linarith+
      have "2 powi (exponent ?x) \<le> ?x" using xpos by (rule exponent_bounds(1))
      also have "?x \<le> 2 powi (?e + 1)" by (rule nearest_upper [OF assms])
      finally have "exponent ?x \<le> ?e + 1" by (simp add: pow2_le_iff)
      with lt e' have ee: "exponent ?x = ?e + 1" by linarith
      with exponent_bounds(1) [OF xpos] nearest_upper [OF assms]
      have eq: "?x = 2 powi (?e + 1)" by simp
      have "ulp ?x = 2 powi (?e + 1 - 52)" using ee ex by (simp add: ulp_def max_def)
      then have "?x / ulp ?x = 2 powi (?e + 1) / 2 powi (?e + 1 - 52)" using eq by simp
      also have "\<dots> = 2 powi 52" by (simp add: power_int_diff [symmetric])
      also have "\<dots> = of_int (2 ^ 52)" by simp
      finally show ?thesis using xpos by (rule nearest_fixed [rotated])
    qed
  qed
qed

lemma nearest_idem: "nearest (nearest r) = nearest r"
proof -
  consider "0 < r" | "r = 0" | "r < 0" by linarith
  then show ?thesis
  proof cases
    case 1
    then show ?thesis by (rule nearest_idem_pos)
  next
    case 2
    then show ?thesis by (simp add: nearest_zero)
  next
    case 3
    then have "nearest (nearest (- r)) = nearest (- r)" by (intro nearest_idem_pos) simp
    then show ?thesis by (simp add: nearest_minus)
  qed
qed

lemma le_Fin: "le (Fin p) (Fin q) = (p \<le> q)"
  by (auto simp add: le_def strictEq_def)





lemma roundDouble_cases:
  "roundDouble r = (if 2 ^ 1024 \<le> nearest r then PInf
                    else if nearest r \<le> - (2 ^ 1024) then NInf else Fin (nearest r))"
  by (simp add: roundDouble_def Let_def)



lemma roundDouble_mono: "a \<le> b \<Longrightarrow> le (roundDouble a) (roundDouble b)"
proof -
  assume "a \<le> b"
  then have "nearest a \<le> nearest b" by (rule nearest_mono)
  then show ?thesis by (auto simp add: roundDouble_cases le_Fin le_def strictEq_def)
qed


lemma roundDouble_of_int:
  assumes "\<bar>k\<bar> \<le> 2 ^ 53"
  shows "roundDouble (of_int k) = Fin (of_int k)"
proof -
  have n: "nearest (of_int k) = of_int k" using assms by (rule nearest_of_int)
  have "(of_int \<bar>k\<bar> :: rat) \<le> of_int (2 ^ 53)" using assms by (simp only: of_int_le_iff)
  then have "\<bar>of_int k :: rat\<bar> \<le> 2 ^ 53" by simp
  moreover have "(2 ^ 53 :: rat) < 2 ^ 1024" by simp
  ultimately have "(of_int k :: rat) < 2 ^ 1024" and "- (2 ^ 1024) < (of_int k :: rat)"
    by linarith+
  then show ?thesis by (simp add: roundDouble_cases n not_le)
qed

lemma roundDouble_numeral:
  "roundDouble 0 = Fin 0" "roundDouble 1 = Fin 1" "roundDouble 8 = Fin 8"
  using roundDouble_of_int [of 0] roundDouble_of_int [of 1] roundDouble_of_int [of 8]
  by simp_all

lemma roundDouble_idem: "roundDouble r = Fin x \<Longrightarrow> roundDouble x = Fin x"
proof -
  assume a: "roundDouble r = Fin x"
  then have x: "x = nearest r" and b: "\<not> 2 ^ 1024 \<le> nearest r" "\<not> nearest r \<le> - (2 ^ 1024)"
    by (auto simp add: roundDouble_cases split: if_splits)
  have "nearest x = x" by (simp add: x nearest_idem)
  with b x show ?thesis by (simp add: roundDouble_cases)
qed



lemma roundDouble_eval:
  assumes "nearest r = x" and "- (2 ^ 1024) < x" and "x < 2 ^ 1024"
  shows "roundDouble r = Fin x"
  using assms by (simp add: roundDouble_cases not_le)

section \<open>Continuous color scales\<close>





























section \<open>Population statistics\<close>

lemma gt_zero_cases: "gt x (Fin 0) \<Longrightarrow> x = PInf \<or> (\<exists>r. 0 < r \<and> x = Fin r)"
  by (cases x) (auto simp add: gt_def)

lemma foldl_addD_PInf: "\<forall>x\<in>set xs. gt x (Fin 0) \<Longrightarrow> foldl addD PInf xs = PInf"
proof (induction xs)
  case Nil
  show ?case by simp
next
  case (Cons x xs)
  then have "gt x (Fin 0)" by simp
  then have "addD PInf x = PInf" using gt_zero_cases [of x] by (auto simp add: addD_def)
  with Cons show ?case by simp
qed

lemma roundDouble_between:
  assumes "a \<le> r" and "r \<le> b" and "roundDouble a = Fin a'" and "roundDouble b = Fin b'"
  shows "\<exists>x. roundDouble r = Fin x \<and> a' \<le> x \<and> x \<le> b'"
proof -
  have "le (Fin a') (roundDouble r)" using roundDouble_mono [OF assms(1)] by (simp add: assms(3))
  moreover have "le (roundDouble r) (Fin b')" using roundDouble_mono [OF assms(2)] by (simp add: assms(4))
  ultimately show ?thesis
    by (cases "roundDouble r") (auto simp add: le_Fin le_def strictEq_def)
qed

lemma sum_filter_le:
  assumes "\<forall>x\<in>set xs. gt x (Fin 0)"
    and "foldl addD (Fin a) xs = Fin s"
    and "0 \<le> b" and "b \<le> a"
    and "roundDouble a = Fin a" and "roundDouble b = Fin b"
  shows "\<exists>u. foldl addD (Fin b) (filter P xs) = Fin u \<and> 0 \<le> u \<and> u \<le> s"
  using assms
proof (induction xs arbitrary: a b)
  case Nil
  then show ?case by simp
next
  case (Cons x xs)
  from Cons.prems(1) have pos: "gt x (Fin 0)" and rest: "\<forall>x\<in>set xs. gt x (Fin 0)" by simp_all
  have fold: "foldl addD (addD (Fin a) x) xs = Fin s" using Cons.prems(2) by simp
  have "x \<noteq> PInf"
  proof
    assume "x = PInf"
    then have "addD (Fin a) x = PInf" by (simp add: addD_def)
    with fold foldl_addD_PInf [OF rest] show False by simp
  qed
  with gt_zero_cases [OF pos] obtain x0 where x: "x = Fin x0" "0 < x0" by blast
  have step: "addD (Fin c) x = roundDouble (c + x0)" for c by (simp add: addD_def x)
  have "roundDouble (a + x0) \<noteq> PInf"
  proof
    assume "roundDouble (a + x0) = PInf"
    with fold foldl_addD_PInf [OF rest] show False by (simp add: step)
  qed
  moreover have "le (Fin a) (roundDouble (a + x0))"
    using roundDouble_mono [of a "a + x0"] x(2) by (simp add: Cons.prems(5))
  ultimately obtain a1 where a1: "roundDouble (a + x0) = Fin a1" "a \<le> a1"
    by (cases "roundDouble (a + x0)") (auto simp add: le_Fin le_def strictEq_def)
  have a1d: "roundDouble a1 = Fin a1" using a1(1) by (rule roundDouble_idem)
  have fold1: "foldl addD (Fin a1) xs = Fin s" using fold by (simp add: step a1)
  show ?case
  proof (cases "P x")
    case True
    have "b \<le> b + x0" "b + x0 \<le> a + x0" using x(2) Cons.prems(4) by simp_all
    from roundDouble_between [OF this Cons.prems(6) a1(1)] obtain b1 where
      b1: "roundDouble (b + x0) = Fin b1" "b \<le> b1" "b1 \<le> a1" by blast
    have b1d: "roundDouble b1 = Fin b1" using b1(1) by (rule roundDouble_idem)
    have "0 \<le> b1" using Cons.prems(3) b1(2) by simp
    from Cons.IH [OF rest fold1 this b1(3) a1d b1d]
    show ?thesis using True by (simp add: step b1)
  next
    case False
    have "b \<le> a1" using Cons.prems(4) a1(2) by simp
    from Cons.IH [OF rest fold1 Cons.prems(3) this a1d Cons.prems(6)]
    show ?thesis using False by simp
  qed
qed

lemma sumOfD_filter_le:
  assumes "\<forall>x\<in>set xs. gt x (Fin 0)" and "sumOfD xs = Fin s"
  shows "\<exists>u. sumOfD (filter P xs) = Fin u \<and> 0 \<le> u \<and> u \<le> s"
  using sum_filter_le [OF assms(1) assms(2) [unfolded sumOfD_def], of 0 P]
  by (simp add: sumOfD_def roundDouble_numeral)

lemma lit_unit:
  assumes "0 \<le> r" and "r \<le> 1"
  shows "\<exists>c. lit r = Fin c \<and> 0 \<le> c \<and> c \<le> 1"
  using roundDouble_between [OF assms roundDouble_numeral(1) roundDouble_numeral(2)]
  by (simp add: lit_def)

lemma mulD_finite_left:
  assumes "mulD x (Fin c) = Fin p"
  shows "\<exists>s. x = Fin s"
  using assms by (cases x) (auto simp add: mulD_def split: if_splits)

lemma mulD_scaled:
  assumes "0 \<le> x" and "x \<le> y" and "0 \<le> c" and "mulD (Fin y) (Fin c) = Fin p"
  shows "\<exists>q. mulD (Fin x) (Fin c) = Fin q \<and> 0 \<le> q \<and> q \<le> p"
proof -
  have "0 \<le> x * c" using assms(1,3) by simp
  moreover have "x * c \<le> y * c" using assms(2,3) by (rule mult_right_mono)
  moreover have "roundDouble (y * c) = Fin p" using assms(4) by (simp add: mulD_def)
  ultimately show ?thesis
    using roundDouble_between [of 0 "x * c" "y * c" 0 p] by (simp add: mulD_def roundDouble_numeral)
qed

lemma mulD_fraction:
  assumes "0 \<le> t" and "roundDouble t = Fin t" and "0 \<le> c" and "c \<le> 1"
  shows "\<exists>q. mulD (Fin t) (Fin c) = Fin q \<and> 0 \<le> q \<and> q \<le> t"
proof -
  have "0 \<le> t * c" using assms(1,3) by simp
  moreover have "t * c \<le> t" using mult_left_mono [OF assms(4) assms(1)] by simp
  ultimately show ?thesis
    using roundDouble_between [of 0 "t * c" t 0 t] assms(2)
    by (simp add: mulD_def roundDouble_numeral)
qed

lemma half_up_mono: "q \<le> p \<Longrightarrow> \<lfloor>q + 1 / 2\<rfloor> \<le> \<lfloor>p + 1 / 2 :: rat\<rfloor>"
  by (rule floor_mono) simp

lemma half_up_of_int: "\<lfloor>of_int k + 1 / 2 :: rat\<rfloor> = k"
  by linarith

lemma partition_exact:
  assumes "0 \<le> U" and "U \<le> T" and "T \<le> 2 ^ 53"
  shows "subD (Fin (of_int T)) (Fin (of_int U)) = Fin (of_int (T - U))"
    and "addD (Fin (of_int U)) (Fin (of_int (T - U))) = Fin (of_int T)"
    and "addD (Fin (of_int (T - U))) (Fin (of_int U)) = Fin (of_int T)"
proof -
  have d: "\<bar>T - U\<bar> \<le> 2 ^ 53" and t: "\<bar>T\<bar> \<le> 2 ^ 53" using assms by simp_all
  show "subD (Fin (of_int T)) (Fin (of_int U)) = Fin (of_int (T - U))"
    using roundDouble_of_int [OF d] by (simp add: subD_def sub_def)
  show "addD (Fin (of_int U)) (Fin (of_int (T - U))) = Fin (of_int T)"
    using roundDouble_of_int [OF t] by (simp add: addD_def)
  show "addD (Fin (of_int (T - U))) (Fin (of_int U)) = Fin (of_int T)"
    using roundDouble_of_int [OF t] by (simp add: addD_def)
qed

lemma population_fields:
  assumes "populationValidData data \<noteq> []"
  shows "map_of (fst (calculatePopulationStats rs n data)) ''totalPopulation''
           = Some (Math_round (mulD (sumOfD (populationValidData data)) (lit (1 / 10))))"
    and "map_of (fst (calculatePopulationStats rs n data)) ''urbanPopulation''
           = Some (Math_round (mulD (sumOfD (filter
                (\<lambda>val. ge val (mulD (Math_max (populationValidData data)) (lit (3 / 10))))
                (populationValidData data))) (lit (1 / 10))))"
    and "map_of (fst (calculatePopulationStats rs n data)) ''ruralPopulation''
           = Some (subD (Math_round (mulD (sumOfD (populationValidData data)) (lit (1 / 10))))
               (Math_round (mulD (sumOfD (filter
                (\<lambda>val. ge val (mulD (Math_max (populationValidData data)) (lit (3 / 10))))
                (populationValidData data))) (lit (1 / 10)))))"
    and "map_of (fst (calculatePopulationStats rs n data)) ''femalePopulation''
           = Some (Math_round (mulD
               (Math_round (mulD (sumOfD (populationValidData data)) (lit (1 / 10))))
               (lit (51 / 100))))"
    and "map_of (fst (calculatePopulationStats rs n data)) ''malePopulation''
           = Some (subD (Math_round (mulD (sumOfD (populationValidData data)) (lit (1 / 10))))
               (Math_round (mulD
                 (Math_round (mulD (sumOfD (populationValidData data)) (lit (1 / 10))))
                 (lit (51 / 100)))))"
proof -
  from assms have "data \<noteq> []" by (auto simp add: populationValidData_def)
  with assms show
    "map_of (fst (calculatePopulationStats rs n data)) ''totalPopulation''
           = Some (Math_round (mulD (sumOfD (populationValidData data)) (lit (1 / 10))))"
    and "map_of (fst (calculatePopulationStats rs n data)) ''urbanPopulation''
           = Some (Math_round (mulD (sumOfD (filter
                (\<lambda>val. ge val (mulD (Math_max (populationValidData data)) (lit (3 / 10))))
                (populationValidData data))) (lit (1 / 10))))"
    and "map_of (fst (calculatePopulationStats rs n data)) ''ruralPopulation''
           = Some (subD (Math_round (mulD (sumOfD (populationValidData data)) (lit (1 / 10))))
               (Math_round (mulD (sumOfD (filter
                (\<lambda>val. ge val (mulD (Math_max (populationValidData data)) (lit (3 / 10))))
                (populationValidData data))) (lit (1 / 10)))))"
    and "map_of (fst (calculatePopulationStats rs n data)) ''femalePopulation''
           = Some (Math_round (mulD
               (Math_round (mulD (sumOfD (populationValidData data)) (lit (1 / 10))))
               (lit (51 / 100))))"
    and "map_of (fst (calculatePopulationStats rs n data)) ''malePopulation''
           = Some (subD (Math_round (mulD (sumOfD (populationValidData data)) (lit (1 / 10))))
               (Math_round (mulD
                 (Math_round (mulD (sumOfD (populationValidData data)) (lit (1 / 10))))
                 (lit (51 / 100)))))"
    by (simp_all add: calculatePopulationStats_def Let_def)
qed

lemma population_zero_record:
  assumes "populationValidData data = []"
  shows "fst (calculatePopulationStats rs n data) = populationZero"
  using assms by (simp add: calculatePopulationStats_def Let_def)

lemma floor_rat_numeral: "\<lfloor>numeral a / numeral b :: rat\<rfloor> = numeral a div numeral b"
  using floor_divide_of_int_eq [of "numeral a" "numeral b", where ?'a = rat] by simp

lemma lit_values:
  "lit (1 / 10) = Fin (3602879701896397 / 36028797018963968)"
    "lit (3 / 10) = Fin (5404319552844595 / 18014398509481984)"
    "lit (11 / 25) = Fin (7926335344172073 / 18014398509481984)"
    "lit (3 / 100) = Fin (1080863910568919 / 36028797018963968)"
    "lit (51 / 100) = Fin (2296835809958953 / 4503599627370496)"
    "lit (31 / 10) = Fin (6980579422424269 / 2251799813685248)"
  by (simp_all add: lit_def, (rule roundDouble_eval, code_simp, simp_all)+)

lemma population_rounding_example:
  "fst (calculatePopulationStats rs n
     [Fin 36028797018963968, Fin 9007199254740992, Fin 9007199254740992, Fin 9007199254740992, Fin 9007199254740992, Fin 9007199254740992, Fin 9007199254740992, Fin 9007199254740992, Fin 9007199254740992, Fin 9007199254740992, Fin 9007199254740992]) =
     [(''totalPopulation'', Fin 12610078956637390),
      (''averageDensity'', Fin 11463708142397626),
      (''maxDensity'', Fin 36028797018963968),
      (''urbanPopulation'', Fin 3602879701896397),
      (''ruralPopulation'', Fin 9007199254740992),
      (''populationGrowthRate'', Fin (6980579422424269 / 2251799813685248)),
      (''populationUnder15'', Fin 5548434740920452),
      (''populationOver65'', Fin 378302368699122),
      (''malePopulation'', Fin 6178938688752321),
      (''femalePopulation'', Fin 6431140267885069)]"
  "addD (Fin 3602879701896397) (Fin 9007199254740992) = Fin 12610078956637388"
proof -
  have e0: "addD (Fin 0) (Fin 36028797018963968) = Fin 36028797018963968"
    by (simp add: addD_def, rule roundDouble_eval, code_simp, simp_all)
  have e1: "addD (Fin 36028797018963968) (Fin 9007199254740992) = Fin 45035996273704960"
    by (simp add: addD_def, rule roundDouble_eval, code_simp, simp_all)
  have e2: "addD (Fin 45035996273704960) (Fin 9007199254740992) = Fin 54043195528445952"
    by (simp add: addD_def, rule roundDouble_eval, code_simp, simp_all)
  have e3: "addD (Fin 54043195528445952) (Fin 9007199254740992) = Fin 63050394783186944"
    by (simp add: addD_def, rule roundDouble_eval, code_simp, simp_all)
  have e4: "addD (Fin 63050394783186944) (Fin 9007199254740992) = Fin 72057594037927936"
    by (simp add: addD_def, rule roundDouble_eval, code_simp, simp_all)
  have e5: "addD (Fin 72057594037927936) (Fin 9007199254740992) = Fin 81064793292668928"
    by (simp add: addD_def, rule roundDouble_eval, code_simp, simp_all)
  have e6: "addD (Fin 81064793292668928) (Fin 9007199254740992) = Fin 90071992547409920"
    by (simp add: addD_def, rule roundDouble_eval, code_simp, simp_all)
  have e7: "addD (Fin 90071992547409920) (Fin 9007199254740992) = Fin 99079191802150912"
    by (simp add: addD_def, rule roundDouble_eval, code_simp, simp_all)
  have e8: "addD (Fin 99079191802150912) (Fin 9007199254740992) = Fin 108086391056891904"
    by (simp add: addD_def, rule roundDouble_eval, code_simp, simp_all)
  have e9: "addD (Fin 108086391056891904) (Fin 9007199254740992) = Fin 117093590311632896"
    by (simp add: addD_def, rule roundDouble_eval, code_simp, simp_all)
  have e10: "addD (Fin 117093590311632896) (Fin 9007199254740992) = Fin 126100789566373888"
    by (simp add: addD_def, rule roundDouble_eval, code_simp, simp_all)
  have e11: "mulD (Fin 126100789566373888) (Fin (3602879701896397 / 36028797018963968)) = Fin 12610078956637390"
    by (simp add: mulD_def, rule roundDouble_eval, code_simp, simp_all)
  have e12: "mulD (Fin 36028797018963968) (Fin (5404319552844595 / 18014398509481984)) = Fin 10808639105689190"
    by (simp add: mulD_def, rule roundDouble_eval, code_simp, simp_all)
  have e13: "mulD (Fin 36028797018963968) (Fin (3602879701896397 / 36028797018963968)) = Fin 3602879701896397"
    by (simp add: mulD_def, rule roundDouble_eval, code_simp, simp_all)
  have e14: "subD (Fin 12610078956637390) (Fin 3602879701896397) = Fin 9007199254740992"
    by (simp add: subD_def sub_def, rule roundDouble_eval, code_simp, simp_all)
  have e15: "mulD (Fin 12610078956637390) (Fin (7926335344172073 / 18014398509481984)) = Fin 5548434740920452"
    by (simp add: mulD_def, rule roundDouble_eval, code_simp, simp_all)
  have e16: "mulD (Fin 12610078956637390) (Fin (1080863910568919 / 36028797018963968)) = Fin (6052837899185947 / 16)"
    by (simp add: mulD_def, rule roundDouble_eval, code_simp, simp_all)
  have e17: "mulD (Fin 12610078956637390) (Fin (2296835809958953 / 4503599627370496)) = Fin 6431140267885069"
    by (simp add: mulD_def, rule roundDouble_eval, code_simp, simp_all)
  have e18: "subD (Fin 12610078956637390) (Fin 6431140267885069) = Fin 6178938688752321"
    by (simp add: subD_def sub_def, rule roundDouble_eval, code_simp, simp_all)
  have e19: "divideD (Fin 126100789566373888) (Fin 11) = Fin 11463708142397626"
    by (simp add: divideD_def, rule roundDouble_eval, code_simp, simp_all)
  have e20: "addD (Fin 3602879701896397) (Fin 9007199254740992) = Fin 12610078956637388"
    by (simp add: addD_def, rule roundDouble_eval, code_simp, simp_all)
  show "fst (calculatePopulationStats rs n
     [Fin 36028797018963968, Fin 9007199254740992, Fin 9007199254740992, Fin 9007199254740992, Fin 9007199254740992, Fin 9007199254740992, Fin 9007199254740992, Fin 9007199254740992, Fin 9007199254740992, Fin 9007199254740992, Fin 9007199254740992]) =
     [(''totalPopulation'', Fin 12610078956637390),
      (''averageDensity'', Fin 11463708142397626),
      (''maxDensity'', Fin 36028797018963968),
      (''urbanPopulation'', Fin 3602879701896397),
      (''ruralPopulation'', Fin 9007199254740992),
      (''populationGrowthRate'', Fin (6980579422424269 / 2251799813685248)),
      (''populationUnder15'', Fin 5548434740920452),
      (''populationOver65'', Fin 378302368699122),
      (''malePopulation'', Fin 6178938688752321),
      (''femalePopulation'', Fin 6431140267885069)]"
    by (simp add: calculatePopulationStats_def populationValidData_def gt_def sumOfD_def
        Math_max_def Math_max2_def ge_def le_def strictEq_def lengthOf_def Let_def
        floor_rat_numeral lit_values e0 e1 e2 e3 e4 e5 e6 e7 e8 e9 e10 e11 e12 e13 e14 e15 e16 e17 e18 e19 e20)
  show "addD (Fin 3602879701896397) (Fin 9007199254740992) = Fin 12610078956637388" by (rule e20)
qed

lemma population_example:
  "fst (calculatePopulationStats rs n [Fin 100, Fin 20, Fin 5, NaN, Fin 0]) =
     [(''totalPopulation'', Fin 13),
      (''averageDensity'', Fin (5864062014805333 / 140737488355328)),
      (''maxDensity'', Fin 100),
      (''urbanPopulation'', Fin 10),
      (''ruralPopulation'', Fin 3),
      (''populationGrowthRate'', Fin (6980579422424269 / 2251799813685248)),
      (''populationUnder15'', Fin 6),
      (''populationOver65'', Fin 0),
      (''malePopulation'', Fin 6),
      (''femalePopulation'', Fin 7)]"
proof -
  have e0: "addD (Fin 0) (Fin 100) = Fin 100"
    by (simp add: addD_def, rule roundDouble_eval, code_simp, simp_all)
  have e1: "addD (Fin 100) (Fin 20) = Fin 120"
    by (simp add: addD_def, rule roundDouble_eval, code_simp, simp_all)
  have e2: "addD (Fin 120) (Fin 5) = Fin 125"
    by (simp add: addD_def, rule roundDouble_eval, code_simp, simp_all)
  have e3: "mulD (Fin 125) (Fin (3602879701896397 / 36028797018963968)) = Fin (25 / 2)"
    by (simp add: mulD_def, rule roundDouble_eval, code_simp, simp_all)
  have e4: "mulD (Fin 100) (Fin (5404319552844595 / 18014398509481984)) = Fin 30"
    by (simp add: mulD_def, rule roundDouble_eval, code_simp, simp_all)
  have e5: "mulD (Fin 100) (Fin (3602879701896397 / 36028797018963968)) = Fin 10"
    by (simp add: mulD_def, rule roundDouble_eval, code_simp, simp_all)
  have e6: "subD (Fin 13) (Fin 10) = Fin 3"
    by (simp add: subD_def sub_def, rule roundDouble_eval, code_simp, simp_all)
  have e7: "mulD (Fin 13) (Fin (7926335344172073 / 18014398509481984)) = Fin (6440147467139809 / 1125899906842624)"
    by (simp add: mulD_def, rule roundDouble_eval, code_simp, simp_all)
  have e8: "mulD (Fin 13) (Fin (1080863910568919 / 36028797018963968)) = Fin (3512807709348987 / 9007199254740992)"
    by (simp add: mulD_def, rule roundDouble_eval, code_simp, simp_all)
  have e9: "mulD (Fin 13) (Fin (2296835809958953 / 4503599627370496)) = Fin (7464716382366597 / 1125899906842624)"
    by (simp add: mulD_def, rule roundDouble_eval, code_simp, simp_all)
  have e10: "subD (Fin 13) (Fin 7) = Fin 6"
    by (simp add: subD_def sub_def, rule roundDouble_eval, code_simp, simp_all)
  have e11: "divideD (Fin 125) (Fin 3) = Fin (5864062014805333 / 140737488355328)"
    by (simp add: divideD_def, rule roundDouble_eval, code_simp, simp_all)
  show ?thesis
    by (simp add: calculatePopulationStats_def populationValidData_def gt_def sumOfD_def
        Math_max_def Math_max2_def ge_def le_def strictEq_def lengthOf_def Let_def
        floor_rat_numeral lit_values e0 e1 e2 e3 e4 e5 e6 e7 e8 e9 e10 e11)
qed

lemma population_infinity_example:
  "fst (calculatePopulationStats rs n [PInf]) =
     [(''totalPopulation'', PInf), (''averageDensity'', PInf), (''maxDensity'', PInf),
      (''urbanPopulation'', PInf), (''ruralPopulation'', NaN),
      (''populationGrowthRate'', Fin (6980579422424269 / 2251799813685248)),
      (''populationUnder15'', PInf), (''populationOver65'', PInf), (''malePopulation'', NaN),
      (''femalePopulation'', PInf)]"
  by (simp add: calculatePopulationStats_def populationValidData_def gt_def sumOfD_def
        Math_max_def Math_max2_def ge_def le_def strictEq_def lengthOf_def Let_def
        floor_rat_numeral lit_values addD_def mulD_def subD_def sub_def divideD_def)

lemma population_zero_example:
  "map_of (fst (calculatePopulationStats rs n [Fin 0, Fin 10])) ''averageDensity'' = Some (Fin 10)"
  "divideD (sumOfD [Fin 0, Fin 10]) (lengthOf [Fin 0, Fin 10]) = Fin 5"
proof -
  have e0: "addD (Fin 0) (Fin 10) = Fin 10"
    by (simp add: addD_def, rule roundDouble_eval, code_simp, simp_all)
  have e1: "mulD (Fin 10) (Fin (3602879701896397 / 36028797018963968)) = Fin 1"
    by (simp add: mulD_def, rule roundDouble_eval, code_simp, simp_all)
  have e2: "mulD (Fin 10) (Fin (5404319552844595 / 18014398509481984)) = Fin 3"
    by (simp add: mulD_def, rule roundDouble_eval, code_simp, simp_all)
  have e3: "subD (Fin 1) (Fin 1) = Fin 0"
    by (simp add: subD_def sub_def, rule roundDouble_eval, code_simp, simp_all)
  have e4: "mulD (Fin 1) (Fin (7926335344172073 / 18014398509481984)) = Fin (7926335344172073 / 18014398509481984)"
    by (simp add: mulD_def, rule roundDouble_eval, code_simp, simp_all)
  have e5: "mulD (Fin 1) (Fin (1080863910568919 / 36028797018963968)) = Fin (1080863910568919 / 36028797018963968)"
    by (simp add: mulD_def, rule roundDouble_eval, code_simp, simp_all)
  have e6: "mulD (Fin 1) (Fin (2296835809958953 / 4503599627370496)) = Fin (2296835809958953 / 4503599627370496)"
    by (simp add: mulD_def, rule roundDouble_eval, code_simp, simp_all)
  have e7: "divideD (Fin 10) (Fin 1) = Fin 10"
    by (simp add: divideD_def, rule roundDouble_eval, code_simp, simp_all)
  have e8: "addD (Fin 0) (Fin 0) = Fin 0"
    by (simp add: addD_def, rule roundDouble_eval, code_simp, simp_all)
  have e9: "divideD (Fin 10) (Fin 2) = Fin 5"
    by (simp add: divideD_def, rule roundDouble_eval, code_simp, simp_all)
  show "map_of (fst (calculatePopulationStats rs n [Fin 0, Fin 10])) ''averageDensity'' = Some (Fin 10)"
    by (simp add: calculatePopulationStats_def populationValidData_def gt_def sumOfD_def
        Math_max_def Math_max2_def ge_def le_def strictEq_def lengthOf_def Let_def
        floor_rat_numeral lit_values e0 e1 e2 e3 e4 e5 e6 e7 e8 e9)
  show "divideD (sumOfD [Fin 0, Fin 10]) (lengthOf [Fin 0, Fin 10]) = Fin 5"
    by (simp add: sumOfD_def lengthOf_def e0 e1 e2 e3 e4 e5 e6 e7 e8 e9)
qed

text \<open>
  C10, as claimed: both partition equations hold for every input array. A cell
  \<open>Infinity\<close> is valid data (\<open>Infinity > 0\<close>); the total and the urban population
  are then \<open>Infinity\<close>, the rural population is \<open>Infinity - Infinity\<close>, which is
  \<open>NaN\<close>, and \<open>Infinity + NaN\<close> is not equal to the total; the same holds of the
  male and female populations. On the finite array of \<open>2^55\<close> followed by ten cells
  \<open>2^53\<close> the total is 12610078956637390, the urban population 3602879701896397 and
  the rural population 9007199254740992; their sum 12610078956637389 is no double, the
  addition rounds it to 12610078956637388, which is not the total.
\<close>

theorem population_partition_counterexample:
  "map_of (fst (calculatePopulationStats (\<lambda>k. 0) 0 [PInf])) ''totalPopulation'' = Some PInf
   \<and> map_of (fst (calculatePopulationStats (\<lambda>k. 0) 0 [PInf])) ''urbanPopulation'' = Some PInf
   \<and> map_of (fst (calculatePopulationStats (\<lambda>k. 0) 0 [PInf])) ''ruralPopulation'' = Some NaN
   \<and> \<not> strictEq (addD PInf NaN) PInf
   \<and> map_of (fst (calculatePopulationStats (\<lambda>k. 0) 0 [PInf])) ''malePopulation'' = Some NaN
   \<and> map_of (fst (calculatePopulationStats (\<lambda>k. 0) 0 [PInf])) ''femalePopulation'' = Some PInf
   \<and> \<not> strictEq (addD NaN PInf) PInf
   \<and> map_of (fst (calculatePopulationStats (\<lambda>k. 0) 0
         [Fin 36028797018963968, Fin 9007199254740992, Fin 9007199254740992,
          Fin 9007199254740992, Fin 9007199254740992, Fin 9007199254740992,
          Fin 9007199254740992, Fin 9007199254740992, Fin 9007199254740992,
          Fin 9007199254740992, Fin 9007199254740992])) ''totalPopulation''
       = Some (Fin 12610078956637390)
   \<and> map_of (fst (calculatePopulationStats (\<lambda>k. 0) 0
         [Fin 36028797018963968, Fin 9007199254740992, Fin 9007199254740992,
          Fin 9007199254740992, Fin 9007199254740992, Fin 9007199254740992,
          Fin 9007199254740992, Fin 9007199254740992, Fin 9007199254740992,
          Fin 9007199254740992, Fin 9007199254740992])) ''urbanPopulation''
       = Some (Fin 3602879701896397)
   \<and> map_of (fst (calculatePopulationStats (\<lambda>k. 0) 0
         [Fin 36028797018963968, Fin 9007199254740992, Fin 9007199254740992,
          Fin 9007199254740992, Fin 9007199254740992, Fin 9007199254740992,
          Fin 9007199254740992, Fin 9007199254740992, Fin 9007199254740992,
          Fin 9007199254740992, Fin 9007199254740992])) ''ruralPopulation''
       = Some (Fin 9007199254740992)
   \<and> addD (Fin 3602879701896397) (Fin 9007199254740992) = Fin 12610078956637388
   \<and> \<not> strictEq (addD (Fin 3602879701896397) (Fin 9007199254740992)) (Fin 12610078956637390)"
proof -
  have nan: "addD PInf NaN = NaN" "addD NaN PInf = NaN" by (simp_all add: addD_def)
  show ?thesis
    by (simp add: population_infinity_example population_rounding_example strictEq_def nan)
qed

text \<open>
  C10, amended. For every input array (empty, without valid data, or with valid data)
  whose record has a finite \<open>totalPopulation\<close> of at most \<open>2^53\<close>, the record returned
  by \<open>calculatePopulationStats\<close> has
  \<open>urbanPopulation + ruralPopulation == totalPopulation\<close> and
  \<open>malePopulation + femalePopulation == totalPopulation\<close>, the sums being sums of
  doubles. Up to \<open>2^53\<close> every integer is a double, and the urban and the female
  population are integers between 0 and the total, so that the two differences and the
  two sums are exact.
\<close>

theorem population_partition:
  assumes "map_of (fst (calculatePopulationStats rs n data)) ''totalPopulation'' = Some (Fin t)"
    and "t \<le> 2 ^ 53"
  shows "\<exists>urban rural male female.
           map_of (fst (calculatePopulationStats rs n data)) ''urbanPopulation'' = Some urban
         \<and> map_of (fst (calculatePopulationStats rs n data)) ''ruralPopulation'' = Some rural
         \<and> map_of (fst (calculatePopulationStats rs n data)) ''malePopulation'' = Some male
         \<and> map_of (fst (calculatePopulationStats rs n data)) ''femalePopulation'' = Some female
         \<and> strictEq (addD urban rural) (Fin t)
         \<and> strictEq (addD male female) (Fin t)"
proof (cases "populationValidData data = []")
  case True
  note z = population_zero_record [OF True, of rs n]
  from assms(1) have "t = 0" by (simp add: z populationZero_def)
  then show ?thesis
    by (simp add: z populationZero_def addD_def roundDouble_numeral strictEq_def)
next
  case False
  let ?vd = "populationValidData data"
  let ?P = "\<lambda>val. ge val (mulD (Math_max ?vd) (lit (3 / 10)))"
  note f = population_fields [OF False, of rs n]
  from assms(1) f(1) have total: "Math_round (mulD (sumOfD ?vd) (lit (1 / 10))) = Fin t" by simp
  obtain c where c: "lit (1 / 10) = Fin c" "0 \<le> c" "c \<le> 1"
    using lit_unit [of "1 / 10"] by auto
  obtain p where p: "mulD (sumOfD ?vd) (Fin c) = Fin p"
    using total by (cases "mulD (sumOfD ?vd) (Fin c)") (simp_all add: c)
  then obtain s where s: "sumOfD ?vd = Fin s" using mulD_finite_left by blast
  have valid: "\<forall>x\<in>set ?vd. gt x (Fin 0)" by (simp add: populationValidData_def)
  from sumOfD_filter_le [OF valid s, of ?P] obtain u where
    u: "sumOfD (filter ?P ?vd) = Fin u" "0 \<le> u" "u \<le> s" by blast
  from mulD_scaled [OF u(2) u(3) c(2) p [unfolded s]] obtain q where
    q: "mulD (Fin u) (Fin c) = Fin q" "0 \<le> q" "q \<le> p" by blast
  define T where "T = \<lfloor>p + 1 / 2\<rfloor>"
  define U where "U = \<lfloor>q + 1 / 2\<rfloor>"
  have t: "t = of_int T" using total by (simp add: c p T_def)
  have T53: "T \<le> 2 ^ 53" using assms(2) by (simp add: t)
  have U: "0 \<le> U" "U \<le> T"
    unfolding U_def T_def using q(2) q(3) by (simp_all add: half_up_mono)
  have T0: "0 \<le> T" using U by simp
  have Td: "roundDouble (of_int T) = Fin (of_int T)"
    using T0 T53 by (intro roundDouble_of_int) simp
  obtain c' where c': "lit (51 / 100) = Fin c'" "0 \<le> c'" "c' \<le> 1"
    using lit_unit [of "51 / 100"] by auto
  have "0 \<le> (of_int T :: rat)" using T0 by simp
  from mulD_fraction [OF this Td c'(2) c'(3)] obtain q' where
    q': "mulD (Fin (of_int T)) (Fin c') = Fin q'" "0 \<le> q'" "q' \<le> of_int T" by blast
  define F where "F = \<lfloor>q' + 1 / 2\<rfloor>"
  have F: "0 \<le> F" "F \<le> T"
    unfolding F_def using q'(2) half_up_mono [OF q'(3)] by (simp_all add: half_up_of_int)
  have totalT: "Math_round (mulD (sumOfD ?vd) (lit (1 / 10))) = Fin (of_int T)"
    using total t by simp
  have urban: "map_of (fst (calculatePopulationStats rs n data)) ''urbanPopulation''
                 = Some (Fin (of_int U))"
    unfolding f(2) by (simp add: u c q U_def)
  have rural: "map_of (fst (calculatePopulationStats rs n data)) ''ruralPopulation''
                 = Some (Fin (of_int (T - U)))"
    unfolding f(3) totalT by (simp add: u c q U_def [symmetric] partition_exact(1) [OF U T53])
  have female: "map_of (fst (calculatePopulationStats rs n data)) ''femalePopulation''
                 = Some (Fin (of_int F))"
    unfolding f(4) totalT by (simp add: c' q' F_def)
  have male: "map_of (fst (calculatePopulationStats rs n data)) ''malePopulation''
                 = Some (Fin (of_int (T - F)))"
    unfolding f(5) totalT by (simp add: c' q' F_def [symmetric] partition_exact(1) [OF F T53])
  have "strictEq (addD (Fin (of_int U)) (Fin (of_int (T - U)))) (Fin t)"
    unfolding partition_exact(2) [OF U T53] by (simp add: strictEq_def t)
  moreover have "strictEq (addD (Fin (of_int (T - F))) (Fin (of_int F))) (Fin t)"
    unfolding partition_exact(3) [OF F T53] by (simp add: strictEq_def t)
  ultimately show ?thesis using urban rural male female by blast
qed

theorem population_partition_witness:
  "map_of (fst (calculatePopulationStats (\<lambda>k. 0) 0 [Fin 100, Fin 20, Fin 5, NaN, Fin 0]))
       ''totalPopulation'' = Some (Fin 13)
   \<and> (13 :: rat) \<le> 2 ^ 53
   \<and> map_of (fst (calculatePopulationStats (\<lambda>k. 0) 0 [Fin 100, Fin 20, Fin 5, NaN, Fin 0]))
       ''urbanPopulation'' = Some (Fin 10)
   \<and> map_of (fst (calculatePopulationStats (\<lambda>k. 0) 0 [Fin 100, Fin 20, Fin 5, NaN, Fin 0]))
       ''ruralPopulation'' = Some (Fin 3)
   \<and> strictEq (addD (Fin 10) (Fin 3)) (Fin 13)
   \<and> map_of (fst (calculatePopulationStats (\<lambda>k. 0) 0 [Fin 100, Fin 20, Fin 5, NaN, Fin 0]))
       ''malePopulation'' = Some (Fin 6)
   \<and> map_of (fst (calculatePopulationStats (\<lambda>k. 0) 0 [Fin 100, Fin 20, Fin 5, NaN, Fin 0]))
       ''femalePopulation'' = Some (Fin 7)
   \<and> strictEq (addD (Fin 6) (Fin 7)) (Fin 13)"
  using population_partition [of "\<lambda>k. 0" 0 "[Fin 100, Fin 20, Fin 5, NaN, Fin 0]" 13]
  by (simp add: population_example)

lemma populationValidData_idem:
  "populationValidData (populationValidData data) = populationValidData data"
  by (simp add: populationValidData_def)

text \<open>
  C2, as claimed: cells equal to 0 are in the valid data and count in the average density.
  On \<open>[0, 10]\<close> the valid data is \<open>[10]\<close> and the average density is 10, not the
  5 that counting the zero cell would give.
\<close>

theorem population_zero_counterexample:
  "populationValidData [Fin 0, Fin 10] = [Fin 10]
   \<and> Fin 0 \<notin> set (populationValidData [Fin 0, Fin 10])
   \<and> map_of (fst (calculatePopulationStats (\<lambda>k. 0) 0 [Fin 0, Fin 10])) ''averageDensity''
       = Some (Fin 10)
   \<and> divideD (sumOfD [Fin 0, Fin 10]) (lengthOf [Fin 0, Fin 10]) = Fin 5"
  by (simp add: population_zero_example populationValidData_def gt_def)

text \<open>
  C2, amended. \<open>calculatePopulationStats\<close> keeps exactly the cells with
  \<open>value > 0\<close>: a cell equal to 0 is dropped like a negative one (and like \<open>NaN\<close>),
  the record is the one computed from the kept cells alone, and the average density is
  their sum divided by their number (0 when there is none).
\<close>

theorem population_valid_data_positive:
  "populationValidData data
     = filter (\<lambda>v. case v of Fin x \<Rightarrow> 0 < x | PInf \<Rightarrow> True | NInf \<Rightarrow> False | NaN \<Rightarrow> False) data
   \<and> Fin 0 \<notin> set (populationValidData data)
   \<and> calculatePopulationStats rs n data = calculatePopulationStats rs n (populationValidData data)
   \<and> map_of (fst (calculatePopulationStats rs n data)) ''averageDensity''
       = Some (if populationValidData data = [] then Fin 0
               else divideD (sumOfD (populationValidData data))
                      (lengthOf (populationValidData data)))"
proof -
  have pred: "gt v (Fin 0) = (case v of Fin x \<Rightarrow> 0 < x | PInf \<Rightarrow> True | NInf \<Rightarrow> False | NaN \<Rightarrow> False)"
    for v by (cases v) (simp_all add: gt_def)
  have a: "populationValidData data
     = filter (\<lambda>v. case v of Fin x \<Rightarrow> 0 < x | PInf \<Rightarrow> True | NInf \<Rightarrow> False | NaN \<Rightarrow> False) data"
    by (simp add: populationValidData_def pred)
  have b: "Fin 0 \<notin> set (populationValidData data)"
    by (simp add: populationValidData_def gt_def)
  have c: "calculatePopulationStats rs n data
             = calculatePopulationStats rs n (populationValidData data)"
  proof (cases "populationValidData data = []")
    case True
    then show ?thesis by (simp add: calculatePopulationStats_def)
  next
    case False
    then have "data \<noteq> []" by (auto simp add: populationValidData_def)
    with False show ?thesis
      by (simp add: calculatePopulationStats_def populationValidData_idem)
  qed
  have d: "map_of (fst (calculatePopulationStats rs n data)) ''averageDensity''
       = Some (if populationValidData data = [] then Fin 0
               else divideD (sumOfD (populationValidData data))
                      (lengthOf (populationValidData data)))"
  proof (cases "populationValidData data = []")
    case True
    then show ?thesis by (simp add: calculatePopulationStats_def populationZero_def)
  next
    case False
    then have "data \<noteq> []" by (auto simp add: populationValidData_def)
    with False show ?thesis
      by (simp add: calculatePopulationStats_def Let_def)
  qed
  from a b c d show ?thesis by blast
qed

section \<open>Determinism of the statistics\<close>

lemma callTwice_results:
  "fst (callTwice f rs n data) = fst (f rs n data)"
  "snd (callTwice f rs n data) = fst (f rs (snd (f rs n data)) data)"
  by (simp_all add: callTwice_def case_prod_unfold Let_def)

lemma transition_example:
  "fst (calculateTransitionStats (\<lambda>k. 1 / 2 ^ (k + 1)) 0 data) =
     [(''transitionIntensity'', Fin 5),
      (''degradedArea'', Fin 250),
      (''improvedArea'', Fin (125 / 2)),
      (''stableArea'', Fin 125)]"
  "snd (calculateTransitionStats (\<lambda>k. 1 / 2 ^ (k + 1)) 0 data) = 4"
  "fst (calculateTransitionStats (\<lambda>k. 1 / 2 ^ (k + 1)) 4 data) =
     [(''transitionIntensity'', Fin (5 / 16)),
      (''degradedArea'', Fin (125 / 8)),
      (''improvedArea'', Fin (125 / 32)),
      (''stableArea'', Fin (125 / 16))]"
proof -
  have e0: "mulD (Fin (1 / 2)) (Fin 10) = Fin 5"
    by (simp add: mulD_def, rule roundDouble_eval, code_simp, simp_all)
  have e1: "mulD (Fin (1 / 4)) (Fin 1000) = Fin 250"
    by (simp add: mulD_def, rule roundDouble_eval, code_simp, simp_all)
  have e2: "mulD (Fin (1 / 8)) (Fin 500) = Fin (125 / 2)"
    by (simp add: mulD_def, rule roundDouble_eval, code_simp, simp_all)
  have e3: "mulD (Fin (1 / 16)) (Fin 2000) = Fin 125"
    by (simp add: mulD_def, rule roundDouble_eval, code_simp, simp_all)
  have e4: "mulD (Fin (1 / 32)) (Fin 10) = Fin (5 / 16)"
    by (simp add: mulD_def, rule roundDouble_eval, code_simp, simp_all)
  have e5: "mulD (Fin (1 / 64)) (Fin 1000) = Fin (125 / 8)"
    by (simp add: mulD_def, rule roundDouble_eval, code_simp, simp_all)
  have e6: "mulD (Fin (1 / 128)) (Fin 500) = Fin (125 / 32)"
    by (simp add: mulD_def, rule roundDouble_eval, code_simp, simp_all)
  have e7: "mulD (Fin (1 / 256)) (Fin 2000) = Fin (125 / 16)"
    by (simp add: mulD_def, rule roundDouble_eval, code_simp, simp_all)
  show "fst (calculateTransitionStats (\<lambda>k. 1 / 2 ^ (k + 1)) 0 data) =
     [(''transitionIntensity'', Fin 5),
      (''degradedArea'', Fin 250),
      (''improvedArea'', Fin (125 / 2)),
      (''stableArea'', Fin 125)]"
    by (simp add: calculateTransitionStats_def e0 e1 e2 e3 e4 e5 e6 e7)
  show "snd (calculateTransitionStats (\<lambda>k. 1 / 2 ^ (k + 1)) 0 data) = 4"
    by (simp add: calculateTransitionStats_def)
  show "fst (calculateTransitionStats (\<lambda>k. 1 / 2 ^ (k + 1)) 4 data) =
     [(''transitionIntensity'', Fin (5 / 16)),
      (''degradedArea'', Fin (125 / 8)),
      (''improvedArea'', Fin (125 / 32)),
      (''stableArea'', Fin (125 / 16))]"
    by (simp add: calculateTransitionStats_def e0 e1 e2 e3 e4 e5 e6 e7)
qed

lemma dyadic_unitDraws: "unitDraws (\<lambda>k. 1 / 2 ^ (k + 1))"
proof -
  have "(1::rat) < 2 * 2 ^ k" for k
  proof -
    have "(1::rat) \<le> 2 ^ k" by simp
    then show ?thesis by linarith
  qed
  then show ?thesis by (simp add: unitDraws_def)
qed

text \<open>
  C3, as claimed: two calls of any of the five statistics functions on the same array
  return equal records. Two calls of \<open>calculateTransitionStats\<close>, one after the
  other, read eight draws of \<open>Math.random\<close>; with the draws \<open>1/2, 1/4, 1/8, ...\<close>
  the two records differ in every field.
\<close>

theorem statistics_determinism_counterexample:
  "callTwice calculateTransitionStats (\<lambda>k. 1 / 2 ^ (k + 1)) 0 [Fin 7, Fin 8] =
     ([(''transitionIntensity'', Fin 5),
      (''degradedArea'', Fin 250),
      (''improvedArea'', Fin (125 / 2)),
      (''stableArea'', Fin 125)],
      [(''transitionIntensity'', Fin (5 / 16)),
      (''degradedArea'', Fin (125 / 8)),
      (''improvedArea'', Fin (125 / 32)),
      (''stableArea'', Fin (125 / 16))])
   \<and> fst (callTwice calculateTransitionStats (\<lambda>k. 1 / 2 ^ (k + 1)) 0 [Fin 7, Fin 8])
       \<noteq> snd (callTwice calculateTransitionStats (\<lambda>k. 1 / 2 ^ (k + 1)) 0 [Fin 7, Fin 8])
   \<and> unitDraws (\<lambda>k. 1 / 2 ^ (k + 1))"
proof -
  have eq: "callTwice calculateTransitionStats (\<lambda>k. 1 / 2 ^ (k + 1)) 0 [Fin 7, Fin 8] =
     ([(''transitionIntensity'', Fin 5),
      (''degradedArea'', Fin 250),
      (''improvedArea'', Fin (125 / 2)),
      (''stableArea'', Fin 125)],
      [(''transitionIntensity'', Fin (5 / 16)),
      (''degradedArea'', Fin (125 / 8)),
      (''improvedArea'', Fin (125 / 32)),
      (''stableArea'', Fin (125 / 16))])"
    by (simp only: prod_eq_iff callTwice_results transition_example fst_conv snd_conv simp_thms)
  have ne: "fst (callTwice calculateTransitionStats (\<lambda>k. 1 / 2 ^ (k + 1)) 0 [Fin 7, Fin 8])
       \<noteq> snd (callTwice calculateTransitionStats (\<lambda>k. 1 / 2 ^ (k + 1)) 0 [Fin 7, Fin 8])"
    unfolding eq by simp
  from eq ne dyadic_unitDraws show ?thesis by blast
qed

text \<open>
  C3, amended. \<open>calculateLandCoverStats\<close>, \<open>calculatePrecipitationStats\<close>,
  \<open>calculateVegetationStats\<close> and \<open>calculatePopulationStats\<close> are deterministic:
  each returns the same record in every state of the random source and makes no draw,
  so that two calls on the same array, one after the other, return equal records.
  \<open>calculateTransitionStats\<close> makes four draws at each call, and two calls return equal
  records exactly when each of the four products of the second call is equal to the
  product of the first call in the same field, as it is when the four draws repeat.
\<close>

theorem statistics_determinism:
  "calculateLandCoverStats rs n data = (fst (calculateLandCoverStats rs' n' data), n)
   \<and> calculatePrecipitationStats rs n data noDataValue
       = (fst (calculatePrecipitationStats rs' n' data noDataValue), n)
   \<and> calculateVegetationStats rs n data = (fst (calculateVegetationStats rs' n' data), n)
   \<and> calculatePopulationStats rs n data = (fst (calculatePopulationStats rs' n' data), n)
   \<and> (f \<in> {calculateLandCoverStats,
             \<lambda>rs n data. calculatePrecipitationStats rs n data noDataValue,
             calculateVegetationStats, calculatePopulationStats}
        \<longrightarrow> fst (callTwice f rs n data) = snd (callTwice f rs n data))
   \<and> snd (calculateTransitionStats rs n data) = n + 4
   \<and> (fst (callTwice calculateTransitionStats rs n data)
          = snd (callTwice calculateTransitionStats rs n data)
        \<longleftrightarrow> mulD (Fin (rs n)) (Fin 10) = mulD (Fin (rs (n + 4))) (Fin 10)
            \<and> mulD (Fin (rs (n + 1))) (Fin 1000) = mulD (Fin (rs (n + 5))) (Fin 1000)
            \<and> mulD (Fin (rs (n + 2))) (Fin 500) = mulD (Fin (rs (n + 6))) (Fin 500)
            \<and> mulD (Fin (rs (n + 3))) (Fin 2000) = mulD (Fin (rs (n + 7))) (Fin 2000))
   \<and> (rs n = rs (n + 4) \<and> rs (n + 1) = rs (n + 5) \<and> rs (n + 2) = rs (n + 6)
          \<and> rs (n + 3) = rs (n + 7)
        \<longrightarrow> fst (callTwice calculateTransitionStats rs n data)
              = snd (callTwice calculateTransitionStats rs n data))"
proof -
  have landCover: "calculateLandCoverStats rs n data = (fst (calculateLandCoverStats rs' n' data), n)"
    for rs n rs' n'
    by (simp add: calculateLandCoverStats_def)
  have precipitation: "calculatePrecipitationStats rs n data noDataValue
       = (fst (calculatePrecipitationStats rs' n' data noDataValue), n)"
    for rs n rs' n'
    by (simp add: calculatePrecipitationStats_def Let_def)
  have vegetation: "calculateVegetationStats rs n data = (fst (calculateVegetationStats rs' n' data), n)"
    for rs n rs' n'
    by (simp add: calculateVegetationStats_def Let_def)
  have population: "calculatePopulationStats rs n data = (fst (calculatePopulationStats rs' n' data), n)"
    for rs n rs' n'
    by (simp add: calculatePopulationStats_def Let_def)
  have twice: "fst (callTwice f rs n data) = snd (callTwice f rs n data)"
    if "f \<in> {calculateLandCoverStats,
             \<lambda>rs n data. calculatePrecipitationStats rs n data noDataValue,
             calculateVegetationStats, calculatePopulationStats}"
  proof -
    from that consider "f = calculateLandCoverStats"
      | "f = (\<lambda>rs n data. calculatePrecipitationStats rs n data noDataValue)"
      | "f = calculateVegetationStats" | "f = calculatePopulationStats"
      by blast
    then show ?thesis
    proof cases
      case 1
      show ?thesis unfolding 1 callTwice_results
        using landCover [of rs "snd (calculateLandCoverStats rs n data)" rs n] by simp
    next
      case 2
      show ?thesis unfolding 2 callTwice_results
        using precipitation [of rs "snd (calculatePrecipitationStats rs n data noDataValue)" rs n]
        by simp
    next
      case 3
      show ?thesis unfolding 3 callTwice_results
        using vegetation [of rs "snd (calculateVegetationStats rs n data)" rs n] by simp
    next
      case 4
      show ?thesis unfolding 4 callTwice_results
        using population [of rs "snd (calculatePopulationStats rs n data)" rs n] by simp
    qed
  qed
  have count: "snd (calculateTransitionStats rs n data) = n + 4"
    by (simp add: calculateTransitionStats_def)
  have random: "fst (callTwice calculateTransitionStats rs n data)
          = snd (callTwice calculateTransitionStats rs n data)
        \<longleftrightarrow> mulD (Fin (rs n)) (Fin 10) = mulD (Fin (rs (n + 4))) (Fin 10)
            \<and> mulD (Fin (rs (n + 1))) (Fin 1000) = mulD (Fin (rs (n + 5))) (Fin 1000)
            \<and> mulD (Fin (rs (n + 2))) (Fin 500) = mulD (Fin (rs (n + 6))) (Fin 500)
            \<and> mulD (Fin (rs (n + 3))) (Fin 2000) = mulD (Fin (rs (n + 7))) (Fin 2000)"
    by (simp add: callTwice_results calculateTransitionStats_def add.commute)
  have repeated: "fst (callTwice calculateTransitionStats rs n data)
              = snd (callTwice calculateTransitionStats rs n data)"
    if "rs n = rs (n + 4) \<and> rs (n + 1) = rs (n + 5) \<and> rs (n + 2) = rs (n + 6)
          \<and> rs (n + 3) = rs (n + 7)"
    using that by (simp add: random)
  from landCover precipitation vegetation population twice count random repeated
  show ?thesis by blast
qed

theorem statistics_determinism_witness:
  "calculatePopulationStats
     \<in> {calculateLandCoverStats,
        \<lambda>rs n data. calculatePrecipitationStats rs n data (Fin 0),
        calculateVegetationStats, calculatePopulationStats}
   \<and> fst (callTwice calculatePopulationStats (\<lambda>k. 1 / 2 ^ (k + 1)) 0
            [Fin 100, Fin 20, Fin 5, NaN, Fin 0])
       = snd (callTwice calculatePopulationStats (\<lambda>k. 1 / 2 ^ (k + 1)) 0
            [Fin 100, Fin 20, Fin 5, NaN, Fin 0])
   \<and> map_of (fst (callTwice calculatePopulationStats (\<lambda>k. 1 / 2 ^ (k + 1)) 0
            [Fin 100, Fin 20, Fin 5, NaN, Fin 0])) ''totalPopulation'' = Some (Fin 13)
   \<and> calculatePopulationStats (\<lambda>k. 1 / 2 ^ (k + 1)) 0 [Fin 100, Fin 20, Fin 5, NaN, Fin 0]
       = (fst (calculatePopulationStats (\<lambda>k. 0) 7 [Fin 100, Fin 20, Fin 5, NaN, Fin 0]), 0)
   \<and> snd (calculateTransitionStats (\<lambda>k. 1 / 2 ^ (k + 1)) 0 [Fin 100, Fin 20, Fin 5, NaN, Fin 0])
       = 4
   \<and> fst (callTwice calculateTransitionStats (\<lambda>k. 1 / 2) 0 [Fin 100, Fin 20, Fin 5, NaN, Fin 0])
       = snd (callTwice calculateTransitionStats (\<lambda>k. 1 / 2) 0 [Fin 100, Fin 20, Fin 5, NaN, Fin 0])"
proof -
  have total: "map_of (fst (callTwice calculatePopulationStats (\<lambda>k. 1 / 2 ^ (k + 1)) 0
            [Fin 100, Fin 20, Fin 5, NaN, Fin 0])) ''totalPopulation'' = Some (Fin 13)"
    by (simp add: callTwice_results population_example)
  show ?thesis
    using statistics_determinism [where rs = "\<lambda>k. 1 / 2 ^ (k + 1)" and n = 0
        and data = "[Fin 100, Fin 20, Fin 5, NaN, Fin 0]" and rs' = "\<lambda>k. 0" and n' = 7
        and noDataValue = "Fin 0" and f = calculatePopulationStats]
      statistics_determinism [where rs = "\<lambda>k. 1 / 2" and n = 0
        and data = "[Fin 100, Fin 20, Fin 5, NaN, Fin 0]"] total
    by simp
qed

end
